theory Spec2Isabelle
  imports Main "HOL-Library.Word"
begin

unbundle bit_operations_syntax

section \<open>The operating system as jattach sees it\<close>

text \<open>
  jattach.c is a sequence of library calls: \<^verbatim>\<open>stat\<close>, \<^verbatim>\<open>creat\<close>, \<^verbatim>\<open>close\<close>, \<^verbatim>\<open>kill\<close>,
  \<^verbatim>\<open>sleep\<close>, \<^verbatim>\<open>unlink\<close>, \<^verbatim>\<open>socket\<close>, \<^verbatim>\<open>connect\<close>, \<^verbatim>\<open>write\<close>, \<^verbatim>\<open>read\<close> and
  \<^verbatim>\<open>printf\<close>.  The model threads a \<open>world\<close> through the program.  It holds

  \<^item> \<open>trace\<close>: the system calls and the calls to \<^verbatim>\<open>printf\<close> made so far, oldest first, each
    with its arguments and with the value the environment has for it; the event \<open>Died\<close>
    closes the trace of a process that a signal terminated;
  \<^item> \<open>ret\<close>: the value the operating system returns to the call issued at step \<open>t\<close>
    (the step is the number of events before it).  The target process and every
    other process run asynchronously, so the model fixes nothing about these values:
    a property proved for every \<open>ret\<close> holds whatever the rest of the system does;
  \<^item> \<open>st_mode_at\<close>: the \<^verbatim>\<open>st_mode\<close> that a successful \<^verbatim>\<open>stat\<close> at step \<open>t\<close> stores;
  \<^item> \<open>rx\<close>: what the peer still has to deliver on the connection, in order: chunks of
    bytes and receive errors; the peer closes the connection after the last one;
  \<^item> \<open>epipe\<close>: whether a \<^verbatim>\<open>write\<close> issued at step \<open>t\<close> finds that nobody reads the other end
    any more (the peer has closed the connection, the reader of a pipe has gone): the
    error \<^verbatim>\<open>EPIPE\<close>, for which the kernel sends \<^verbatim>\<open>SIGPIPE\<close> to the writer;
  \<^item> \<open>ignored\<close>: the signals that the process ignores or blocks.  jattach.c installs no
    handler and changes no disposition, so this is what the process inherited: every
    other signal has its default action, which for \<^verbatim>\<open>SIGQUIT\<close> and \<^verbatim>\<open>SIGPIPE\<close> terminates
    the process;
  \<^item> \<open>self_pid\<close> and \<open>self_pgrp\<close>: the process identifier of jattach itself and the
    identifier of its process group;
  \<^item> \<open>stdout_mode\<close>: how the C library buffers standard output, and \<open>stdio\<close>: the bytes
    given to \<^verbatim>\<open>printf\<close> that it still holds in its buffer.
\<close>

type_synonym mode_t = "32 word"

datatype signal = SIGQUIT | SIGPIPE

datatype buffering = Unbuffered | LineBuffered | FullyBuffered

datatype event =
    Stat string int mode_t
  | Creat string nat int
  | Close int
  | Kill int signal int
  | Sleep nat
  | Unlink string int
  | Socket int
  | Connect int string int
  | Write int string int
  | Read int nat int string
  | Printf string
  | Died signal

datatype rx_event = Chunk string | RxError

record world =
  ret :: "nat \<Rightarrow> int"
  st_mode_at :: "nat \<Rightarrow> mode_t"
  rx :: "rx_event list"
  trace :: "event list"
  epipe :: "nat \<Rightarrow> bool"
  ignored :: "signal \<Rightarrow> bool"
  self_pid :: int
  self_pgrp :: int
  stdout_mode :: buffering
  stdio :: string

definition clock :: "world \<Rightarrow> nat" where
  "clock w = length (trace w)"

definition emit :: "event \<Rightarrow> world \<Rightarrow> world" where
  "emit ev w = w\<lparr>trace := trace w @ [ev]\<rparr>"

text \<open>
  A call either returns a value or does not return, because a signal terminated the
  process inside it: \<open>Inr\<close> the value, \<open>Inl\<close> the signal.  \<open>then_do\<close> runs the rest of the
  program after a call that returned, and nothing after one that did not.
\<close>

definition then_do ::
  "(signal + 'a) \<times> world \<Rightarrow> ('a \<Rightarrow> world \<Rightarrow> (signal + 'b) \<times> world) \<Rightarrow> (signal + 'b) \<times> world" where
  "then_do m f = (case m of (Inl sg, w) \<Rightarrow> (Inl sg, w) | (Inr x, w) \<Rightarrow> f x w)"

text \<open>The file-type bits of \<^verbatim>\<open>st_mode\<close>, as \<^verbatim>\<open><sys/stat.h>\<close> defines them on Linux:
  \<^verbatim>\<open>S_IFMT\<close> is octal 0170000 and \<^verbatim>\<open>S_IFSOCK\<close> is octal 0140000.\<close>

definition S_IFMT :: mode_t where
  "S_IFMT = 0xF000"

definition S_IFSOCK :: mode_t where
  "S_IFSOCK = 0xC000"

definition S_ISSOCK :: "mode_t \<Rightarrow> bool" where
  "S_ISSOCK m = (m AND S_IFMT = S_IFSOCK)"

definition NUL :: char where
  "NUL = CHR 0x00"

definition newline :: char where
  "newline = CHR 0x0A"

subsection \<open>The system calls\<close>

definition sys_stat :: "string \<Rightarrow> world \<Rightarrow> (int \<times> mode_t) \<times> world" where
  "sys_stat p w =
     (let r = ret w (clock w); m = st_mode_at w (clock w)
      in ((r, m), emit (Stat p r m) w))"

definition sys_creat :: "string \<Rightarrow> nat \<Rightarrow> world \<Rightarrow> int \<times> world" where
  "sys_creat p md w = (let fd = ret w (clock w) in (fd, emit (Creat p md fd) w))"

definition sys_close :: "int \<Rightarrow> world \<Rightarrow> world" where
  "sys_close fd w = emit (Close fd) w"

text \<open>
  \<^verbatim>\<open>kill(pid, sig)\<close> addresses the process \<open>pid\<close> when \<open>pid\<close> is positive, every process of
  the caller's own process group when \<open>pid\<close> is 0, and every process of the group \<open>- pid\<close>
  when \<open>pid\<close> is below -1.  (With -1 it addresses every process the caller may signal; on
  Linux the caller itself is not among them.)  \<open>hits_caller\<close>: the caller is among the
  processes addressed.  The caller may always signal itself.  When it is addressed and
  the signal is neither ignored nor blocked, the signal is delivered before \<^verbatim>\<open>kill\<close>
  returns, and its default action terminates the process: the call does not return.
  The value recorded with such a call is the one the environment had for it; the
  program never sees it.
\<close>

definition hits_caller :: "world \<Rightarrow> int \<Rightarrow> bool" where
  "hits_caller w pid = (pid = 0 \<or> pid = self_pid w \<or> (pid < - 1 \<and> - pid = self_pgrp w))"

definition kill_is_fatal :: "world \<Rightarrow> int \<Rightarrow> signal \<Rightarrow> bool" where
  "kill_is_fatal w pid sg = (hits_caller w pid \<and> \<not> ignored w sg)"

definition sys_kill :: "int \<Rightarrow> signal \<Rightarrow> world \<Rightarrow> (signal + int) \<times> world" where
  "sys_kill pid sg w =
     (let r = ret w (clock w); w1 = emit (Kill pid sg r) w
      in if kill_is_fatal w pid sg then (Inl sg, emit (Died sg) w1) else (Inr r, w1))"

definition sys_sleep :: "nat \<Rightarrow> world \<Rightarrow> world" where
  "sys_sleep n w = emit (Sleep n) w"

definition sys_unlink :: "string \<Rightarrow> world \<Rightarrow> int \<times> world" where
  "sys_unlink p w = (let r = ret w (clock w) in (r, emit (Unlink p r) w))"

definition sys_socket :: "world \<Rightarrow> int \<times> world" where
  "sys_socket w = (let fd = ret w (clock w) in (fd, emit (Socket fd) w))"

definition sys_connect :: "int \<Rightarrow> string \<Rightarrow> world \<Rightarrow> int \<times> world" where
  "sys_connect fd p w = (let r = ret w (clock w) in (r, emit (Connect fd p r) w))"

text \<open>
  \<^verbatim>\<open>write(fd, buf, n)\<close>.  When nobody reads the other end (\<open>epipe\<close>) the call fails with
  \<^verbatim>\<open>EPIPE\<close> and the kernel sends \<^verbatim>\<open>SIGPIPE\<close> to the writer: unless the signal is ignored
  or blocked the process is terminated and the call does not return (\<open>pipe_kills\<close>);
  otherwise it returns -1.  In every other case it returns what the environment
  answers: the number of bytes accepted, or -1 for another error.
\<close>

definition pipe_kills :: "world \<Rightarrow> nat \<Rightarrow> bool" where
  "pipe_kills w t = (epipe w t \<and> \<not> ignored w SIGPIPE)"

definition write_result :: "world \<Rightarrow> nat \<Rightarrow> int" where
  "write_result w t = (if epipe w t then - 1 else ret w t)"

definition sys_write :: "int \<Rightarrow> string \<Rightarrow> world \<Rightarrow> (signal + int) \<times> world" where
  "sys_write fd bs w =
     (let r = write_result w (clock w); w1 = emit (Write fd bs r) w
      in if pipe_kills w (clock w) then (Inl SIGPIPE, emit (Died SIGPIPE) w1) else (Inr r, w1))"

text \<open>
  \<^verbatim>\<open>read(fd, buf, n)\<close> on the stream socket.  A chunk of no bytes is invisible on a
  stream; a chunk longer than \<open>n\<close> is delivered \<open>n\<close> bytes at a time and the rest stays
  queued; nothing left means that the peer has closed, and \<^verbatim>\<open>read\<close> returns 0; a
  receive error returns -1.  The result is the returned count and the bytes stored at
  the start of \<^verbatim>\<open>buf\<close>.
\<close>

definition sys_read :: "int \<Rightarrow> nat \<Rightarrow> world \<Rightarrow> (int \<times> string) \<times> world" where
  "sys_read fd n w =
     (case dropWhile (\<lambda>e. e = Chunk []) (rx w) of
        [] \<Rightarrow> ((0, []), emit (Read fd n 0 []) (w\<lparr>rx := []\<rparr>))
      | RxError # rest \<Rightarrow> ((- 1, []), emit (Read fd n (- 1) []) (w\<lparr>rx := rest\<rparr>))
      | Chunk bs # rest \<Rightarrow>
          (let got = take n bs; left = drop n bs
           in ((int (length got), got),
               emit (Read fd n (int (length got)) got)
                 (w\<lparr>rx := (if left = [] then rest else Chunk left # rest)\<rparr>))))"

subsection \<open>Standard output of the C library\<close>

text \<open>
  \<^verbatim>\<open>printf\<close> does not write to descriptor 1: it appends to the buffer of the stream
  \<^verbatim>\<open>stdout\<close>, and the library hands the buffer to \<^verbatim>\<open>write(1, ...)\<close> when the buffering
  mode says so.  The mode is chosen by the library when the stream is first used:
  line buffered when descriptor 1 is a terminal, fully buffered otherwise (a pipe, a
  file).  jattach.c never calls \<^verbatim>\<open>setvbuf\<close> or \<^verbatim>\<open>fflush\<close>.

  \<^item> \<open>Unbuffered\<close>: the bytes are written at once.
  \<^item> \<open>LineBuffered\<close>: when the string contains a newline, the buffer is written up to and
    including its last newline.
  \<^item> \<open>FullyBuffered\<close>: the bytes stay in the buffer until it is full or the stream is
    flushed.  Every run of jattach gives \<^verbatim>\<open>printf\<close> fewer than 40 bytes, far fewer than
    the smallest buffer that C permits (\<^verbatim>\<open>BUFSIZ\<close> is at least 256), so the buffer never
    fills: the bytes stay until the process exits.

  \<open>fflush\<close> is what the library does to write the buffer out; it is a \<^verbatim>\<open>write\<close> on
  descriptor 1 like any other, \<^verbatim>\<open>SIGPIPE\<close> included.  A process that a signal terminates
  never flushes: what is in the buffer then is lost.
\<close>

definition fflush :: "world \<Rightarrow> (signal + unit) \<times> world" where
  "fflush w =
     (if stdio w = [] then (Inr (), w)
      else then_do (sys_write 1 (stdio w) (w\<lparr>stdio := []\<rparr>)) (\<lambda>r w'. (Inr (), w')))"

definition upto_last_newline :: "string \<Rightarrow> string \<times> string" where
  "upto_last_newline bs =
     (let k = length (dropWhile (\<lambda>c. c \<noteq> newline) (rev bs)) in (take k bs, drop k bs))"

definition flush_lines :: "world \<Rightarrow> (signal + unit) \<times> world" where
  "flush_lines w =
     (let (out, rest) = upto_last_newline (stdio w)
      in if out = [] then (Inr (), w)
         else then_do (sys_write 1 out (w\<lparr>stdio := rest\<rparr>)) (\<lambda>r w'. (Inr (), w')))"

text \<open>\<^verbatim>\<open>printf(s)\<close> for a format \<open>s\<close> without conversions, which is all that jattach.c uses.\<close>

definition printf :: "string \<Rightarrow> world \<Rightarrow> (signal + unit) \<times> world" where
  "printf s w =
     (let w1 = emit (Printf s) (w\<lparr>stdio := stdio w @ s\<rparr>)
      in case stdout_mode w of
           Unbuffered \<Rightarrow> fflush w1
         | LineBuffered \<Rightarrow> if newline \<in> set s then flush_lines w1 else (Inr (), w1)
         | FullyBuffered \<Rightarrow> (Inr (), w1))"

text \<open>
  A \<^verbatim>\<open>return\<close> from \<^verbatim>\<open>main\<close> is a call to \<^verbatim>\<open>exit\<close> with the value returned: the library
  flushes \<^verbatim>\<open>stdout\<close>, then the process ends with that exit status.
\<close>

definition c_exit :: "int \<Rightarrow> world \<Rightarrow> (signal + int) \<times> world" where
  "c_exit status w = then_do (fflush w) (\<lambda>u w'. (Inr status, w'))"

subsection \<open>Formatting and parsing decimal numbers\<close>

text \<open>\<^verbatim>\<open>sprintf\<close> with \<^verbatim>\<open>%d\<close>: the decimal digits, after a minus sign for a negative number.\<close>

definition digit_char :: "nat \<Rightarrow> char" where
  "digit_char d = ''0123456789'' ! d"

fun dec_nat :: "nat \<Rightarrow> string" where
  "dec_nat n = (if n < 10 then [digit_char n] else dec_nat (n div 10) @ [digit_char (n mod 10)])"

declare dec_nat.simps [simp del]

definition dec_int :: "int \<Rightarrow> string" where
  "dec_int i = (if i < 0 then CHR ''-'' # dec_nat (nat (- i)) else dec_nat (nat i))"

text \<open>
  \<^verbatim>\<open>atoi(s)\<close> is \<^verbatim>\<open>(int) strtol(s, NULL, 10)\<close> in the GNU C library.  \<^verbatim>\<open>strtol\<close> skips
  leading white space, takes an optional sign and the longest run of decimal digits
  (0 when there is no digit), and returns \<^verbatim>\<open>LONG_MIN\<close> or \<^verbatim>\<open>LONG_MAX\<close> when the number is
  outside the range of \<^verbatim>\<open>long\<close>, which has 64 bits; the conversion to \<^verbatim>\<open>int\<close> keeps the low
  32 bits, read in two's complement.  So \<open>4294967338\<close>, which is \<open>2^32 + 42\<close>, parses
  to 42.
\<close>

definition isspace :: "char \<Rightarrow> bool" where
  "isspace c = (c \<in> set [CHR '' '', CHR 0x09, CHR 0x0A, CHR 0x0B, CHR 0x0C, CHR 0x0D])"

definition isdigit :: "char \<Rightarrow> bool" where
  "isdigit c = (of_char (CHR ''0'') \<le> (of_char c :: nat) \<and> (of_char c :: nat) \<le> of_char (CHR ''9''))"

fun atoi_digits :: "int \<Rightarrow> string \<Rightarrow> int" where
  "atoi_digits acc [] = acc"
| "atoi_digits acc (c # cs) =
     (if isdigit c then atoi_digits (acc * 10 + (int (of_char c) - int (of_char (CHR ''0'')))) cs
      else acc)"

definition LONG_MAX :: int where
  "LONG_MAX = 2 ^ 63 - 1"

definition LONG_MIN :: int where
  "LONG_MIN = - (2 ^ 63)"

definition strtol :: "string \<Rightarrow> int" where
  "strtol s =
     (let n = (case dropWhile isspace s of
                 [] \<Rightarrow> 0
               | c # cs \<Rightarrow>
                   if c = CHR ''-'' then - atoi_digits 0 cs
                   else if c = CHR ''+'' then atoi_digits 0 cs
                   else atoi_digits 0 (c # cs))
      in if n < LONG_MIN then LONG_MIN else if LONG_MAX < n then LONG_MAX else n)"

definition atoi :: "string \<Rightarrow> int" where
  "atoi s = sint (word_of_int (strtol s) :: 32 word)"

section \<open>jattach.c\<close>

subsection \<open>\<^verbatim>\<open>check_socket\<close>\<close>

text \<open>
  \<^verbatim>\<open>return stat(path, &stats) == 0 && S_ISSOCK(stats.st_mode);\<close>
  The result is the C truth value of the conjunction, 1 or 0.
\<close>

definition check_socket :: "int \<Rightarrow> world \<Rightarrow> int \<times> world" where
  "check_socket pid w =
     (let path = ''/tmp/.java_pid'' @ dec_int pid;
          ((r, m), w1) = sys_stat path w
      in (if r = 0 \<and> S_ISSOCK m then 1 else 0, w1))"

subsection \<open>\<^verbatim>\<open>start_attach_mechanism\<close>\<close>

text \<open>
  The \<^verbatim>\<open>do ... while (!result && ++retry < 10)\<close> loop, entered with the value of
  \<^verbatim>\<open>retry\<close>.
\<close>

function attach_poll :: "int \<Rightarrow> int \<Rightarrow> world \<Rightarrow> int \<times> world" where
  "attach_poll pid retry w =
     (case check_socket pid (sys_sleep 1 w) of
        (result, w2) \<Rightarrow>
          if result = 0 \<and> retry + 1 < 10 then attach_poll pid (retry + 1) w2
          else (result, w2))"
  by pat_completeness auto
termination
  by (relation "measure (\<lambda>(pid, retry, w). nat (10 - retry))") auto

declare attach_poll.simps [simp del]

text \<open>
  The mode 0660 of \<^verbatim>\<open>creat\<close> is octal: 432.  The values that \<^verbatim>\<open>close\<close>, \<^verbatim>\<open>kill\<close> and
  \<^verbatim>\<open>unlink\<close> return are dropped.  Nothing after \<^verbatim>\<open>kill\<close> is executed when the signal
  terminates jattach itself.
\<close>

definition start_attach_mechanism :: "int \<Rightarrow> world \<Rightarrow> (signal + int) \<times> world" where
  "start_attach_mechanism pid w =
     (let path0 = ''/proc/'' @ dec_int pid @ ''/cwd/.attach_pid'' @ dec_int pid;
          (fd0, w0) = sys_creat path0 432 w;
          (path, fd, w1) =
            (if fd0 = - 1
             then (let path1 = ''/tmp/.attach_pid'' @ dec_int pid;
                       (fd1, w') = sys_creat path1 432 w0
                   in (path1, fd1, w'))
             else (path0, fd0, w0))
      in if fd = - 1 then (Inr 0, w1)
         else then_do (sys_kill pid SIGQUIT (sys_close fd w1))
                (\<lambda>k w3. let (result, w4) = attach_poll pid 0 w3;
                             (u, w5) = sys_unlink path w4
                         in (Inr result, w5)))"

subsection \<open>\<^verbatim>\<open>connect_socket\<close>\<close>

definition connect_socket :: "int \<Rightarrow> world \<Rightarrow> int \<times> world" where
  "connect_socket pid w =
     (let (fd, w1) = sys_socket w
      in if fd = - 1 then (- 1, w1)
         else (let (r, w2) = sys_connect fd (''/tmp/.java_pid'' @ dec_int pid) w1
               in if r = - 1 then (- 1, sys_close fd w2) else (fd, w2)))"

subsection \<open>\<^verbatim>\<open>write_command\<close>\<close>

text \<open>
  The \<^verbatim>\<open>for (i = 0; i < 4; i++)\<close> loop, entered with the value of \<open>i\<close>.
  \<open>argv\<close> holds the strings without their terminating null byte; \<^verbatim>\<open>strlen(arg) + 1\<close>
  bytes from \<^verbatim>\<open>arg\<close> are the string and its terminator.  The value \<^verbatim>\<open>write\<close> returns is
  dropped.
\<close>

function write_args :: "int \<Rightarrow> int \<Rightarrow> string list \<Rightarrow> int \<Rightarrow> world \<Rightarrow> (signal + unit) \<times> world" where
  "write_args fd argc argv i w =
     (if i < 4
      then (let arg = (if i < argc then argv ! nat i else '''')
            in then_do (sys_write fd (arg @ [NUL]) w) (\<lambda>r. write_args fd argc argv (i + 1)))
      else (Inr (), w))"
  by pat_completeness auto
termination
  by (relation "measure (\<lambda>(fd, argc, argv, i, w). nat (4 - i))") auto

declare write_args.simps [simp del]

text \<open>\<^verbatim>\<open>write(fd, "1", 2)\<close> writes the character and the terminator of the literal.\<close>

definition write_command :: "int \<Rightarrow> int \<Rightarrow> string list \<Rightarrow> world \<Rightarrow> (signal + unit) \<times> world" where
  "write_command fd argc argv w =
     then_do (sys_write fd (''1'' @ [NUL]) w) (\<lambda>r. write_args fd argc argv 0)"

subsection \<open>\<^verbatim>\<open>read_response\<close>\<close>

text \<open>
  The loop ends because every \<^verbatim>\<open>read\<close> that returns data consumes some of what the
  peer delivers; \<open>rx_size\<close> measures what is left.
\<close>

fun rx_size :: "rx_event list \<Rightarrow> nat" where
  "rx_size [] = 0"
| "rx_size (Chunk bs # es) = Suc (length bs + rx_size es)"
| "rx_size (RxError # es) = Suc (rx_size es)"

lemma rx_size_dropWhile: "rx_size (dropWhile P es) \<le> rx_size es"
  by (induction es rule: rx_size.induct) auto

lemma sys_read_decreases:
  "sys_read fd n w = ((bytes, buf), w1) \<Longrightarrow> 0 < bytes \<Longrightarrow> rx_size (rx w1) < rx_size (rx w)"
  using rx_size_dropWhile [of "\<lambda>e. e = Chunk []" "rx w"]
  by (auto simp: sys_read_def emit_def Let_def split: list.splits rx_event.splits if_splits)

lemma sys_write_rx: "sys_write fd bs w = (x, w') \<Longrightarrow> rx w' = rx w"
  by (auto simp: sys_write_def emit_def Let_def split: if_splits)

lemma relay_step_decreases:
  "((bytes, buf), w1) = sys_read fd n w \<Longrightarrow> 0 < bytes \<Longrightarrow> (x, w2) = sys_write fd' bs w1 \<Longrightarrow>
     rx_size (rx w2) < rx_size (rx w)"
  using sys_read_decreases [of fd n w bytes buf w1] sys_write_rx [of fd' bs w1 x w2] by simp

text \<open>
  \<^verbatim>\<open>while ((bytes = read(fd, buf, sizeof(buf))) > 0) write(1, buf, bytes);\<close>
  with \<^verbatim>\<open>char buf[1024]\<close>.  The value \<^verbatim>\<open>write\<close> returns is dropped.
\<close>

function read_response :: "int \<Rightarrow> world \<Rightarrow> (signal + unit) \<times> world" where
  "read_response fd w =
     (case sys_read fd 1024 w of
        ((bytes, buf), w1) \<Rightarrow>
          if bytes > 0
          then (case sys_write 1 (take (nat bytes) buf) w1 of
                  (Inl sg, w2) \<Rightarrow> (Inl sg, w2)
                | (Inr r, w2) \<Rightarrow> read_response fd w2)
          else (Inr (), w1))"
  by pat_completeness auto
termination
  by (relation "measure (\<lambda>(fd, w). rx_size (rx w))")
     (auto intro: relay_step_decreases)

declare read_response.simps [simp del]

subsection \<open>\<^verbatim>\<open>main\<close>\<close>

text \<open>
  \<open>argv\<close> is the whole argument vector, the program name first, and \<^verbatim>\<open>argc\<close> is its
  length.  The result is the exit status, or the signal that terminated the process.  In
  \<^verbatim>\<open>!check_socket(pid) && !start_attach_mechanism(pid)\<close> the second call is made only
  when the first returns 0.
\<close>

definition main :: "string list \<Rightarrow> world \<Rightarrow> (signal + int) \<times> world" where
  "main argv w =
     (let argc = int (length argv)
      in if argc < 3
         then then_do (printf ''Usage: jattach <pid> <cmd> <args> ...\<newline>'' w) (\<lambda>u. c_exit 1)
         else (let pid = atoi (argv ! 1);
                   (ready, w1) = check_socket pid w
               in then_do
                    (if ready \<noteq> 0 then (Inr False, w1)
                     else then_do (start_attach_mechanism pid w1)
                            (\<lambda>started w'. (Inr (started = 0), w')))
                    (\<lambda>failed w2.
                       if failed
                       then then_do (printf ''Could not start attach mechanism\<newline>'' w2) (\<lambda>u. c_exit 1)
                       else (let (fd, w3) = connect_socket pid w2
                             in if fd = - 1
                                then then_do (printf ''Could not connect to socket\<newline>'' w3)
                                       (\<lambda>u. c_exit 1)
                                else then_do (printf ''Connected to remove JVM\<newline>'' w3) (\<lambda>u w4.
                                     then_do (write_command fd (argc - 2) (drop 2 argv) w4) (\<lambda>u w5.
                                     then_do (read_response fd w5) (\<lambda>u w6.
                                     then_do (printf ''\<newline>'' (sys_close fd w6)) (\<lambda>u. c_exit 0))))))))"

section \<open>What a trace shows\<close>

text \<open>
  The strings given to \<^verbatim>\<open>printf\<close>, one per call, in order.  They are what the program
  asked to print, whether or not the C library has written them yet.
\<close>

definition printf_args :: "event list \<Rightarrow> string list" where
  "printf_args tr = concat (map (\<lambda>ev. case ev of Printf s \<Rightarrow> [s] | _ \<Rightarrow> []) tr)"

text \<open>The buffers handed to \<^verbatim>\<open>write\<close> on descriptor \<open>fd\<close>, one per call, in order.\<close>

definition sent :: "int \<Rightarrow> event list \<Rightarrow> string list" where
  "sent fd tr = concat (map (\<lambda>ev. case ev of Write fd' bs r \<Rightarrow> if fd' = fd then [bs] else [] | _ \<Rightarrow> []) tr)"

text \<open>The bytes that \<^verbatim>\<open>read\<close> returned, in order.\<close>

definition received :: "event list \<Rightarrow> string" where
  "received tr = concat (map (\<lambda>ev. case ev of Read fd n r bs \<Rightarrow> bs | _ \<Rightarrow> []) tr)"

text \<open>
  The bytes handed to descriptor 1, in the order in which they reach it: by the program's
  own \<^verbatim>\<open>write(1, ...)\<close> and by the C library when it writes out the buffer of \<^verbatim>\<open>stdout\<close>.
  What \<^verbatim>\<open>printf\<close> was given counts when it is written, not when \<^verbatim>\<open>printf\<close> is called.
\<close>

definition stdout_bytes :: "event list \<Rightarrow> string" where
  "stdout_bytes tr = concat (sent 1 tr)"

text \<open>
  The paths at which \<^verbatim>\<open>creat\<close> succeeded, and the paths given to \<^verbatim>\<open>unlink\<close>, each with
  what \<^verbatim>\<open>unlink\<close> returned: 0 when the file was removed.
\<close>

definition created :: "event list \<Rightarrow> string list" where
  "created tr = concat (map (\<lambda>ev. case ev of Creat p md fd \<Rightarrow> if fd = - 1 then [] else [p] | _ \<Rightarrow> []) tr)"

definition unlinked :: "event list \<Rightarrow> (string \<times> int) list" where
  "unlinked tr = concat (map (\<lambda>ev. case ev of Unlink p r \<Rightarrow> [(p, r)] | _ \<Rightarrow> []) tr)"

text \<open>The calls to \<^verbatim>\<open>stat\<close>: the polls of the channel, each with what it found.\<close>

definition polls :: "event list \<Rightarrow> (int \<times> mode_t) list" where
  "polls tr = concat (map (\<lambda>ev. case ev of Stat p r m \<Rightarrow> [(r, m)] | _ \<Rightarrow> []) tr)"

text \<open>The signals sent, each with the target and with the value recorded for \<^verbatim>\<open>kill\<close>.\<close>

definition kills :: "event list \<Rightarrow> (int \<times> signal \<times> int) list" where
  "kills tr = concat (map (\<lambda>ev. case ev of Kill pid sg r \<Rightarrow> [(pid, sg, r)] | _ \<Rightarrow> []) tr)"

text \<open>The descriptors on which \<^verbatim>\<open>connect\<close> succeeded.\<close>

definition connected :: "event list \<Rightarrow> int list" where
  "connected tr = concat (map (\<lambda>ev. case ev of Connect fd p r \<Rightarrow> if r = - 1 then [] else [fd] | _ \<Rightarrow> []) tr)"

text \<open>The events a call appended: those after the first \<open>clock w\<close> ones.\<close>

definition since :: "world \<Rightarrow> world \<Rightarrow> event list" where
  "since w w' = drop (clock w) (trace w')"

text \<open>The world after a list of events has been appended to its trace.\<close>

definition emits :: "event list \<Rightarrow> world \<Rightarrow> world" where
  "emits evs w = w\<lparr>trace := trace w @ evs\<rparr>"

section \<open>What the environment answers\<close>

text \<open>
  \<open>ready_at w t\<close>: a \<^verbatim>\<open>stat\<close> issued at step \<open>t\<close> succeeds and finds a socket, so a poll of
  the channel made at that step reports it ready.
\<close>

definition ready_at :: "world \<Rightarrow> nat \<Rightarrow> bool" where
  "ready_at w t = (ret w t = 0 \<and> S_ISSOCK (st_mode_at w t))"

text \<open>
  \<open>poll_events pid w c n\<close>: \<open>n\<close> rounds of the wait loop entered at step \<open>c\<close>: each round
  is one \<^verbatim>\<open>sleep(1)\<close> and then one \<^verbatim>\<open>stat\<close> of the channel path, with what the environment
  answers at that step.
\<close>

fun poll_events :: "int \<Rightarrow> world \<Rightarrow> nat \<Rightarrow> nat \<Rightarrow> event list" where
  "poll_events pid w c 0 = []"
| "poll_events pid w c (Suc n) =
     Sleep 1 # Stat (''/tmp/.java_pid'' @ dec_int pid) (ret w (Suc c)) (st_mode_at w (Suc c))
       # poll_events pid w (Suc (Suc c)) n"

text \<open>
  \<open>rx_data es\<close>: the bytes the peer delivers before it closes the connection or the
  first receive error.
\<close>

fun rx_data :: "rx_event list \<Rightarrow> string" where
  "rx_data [] = []"
| "rx_data (Chunk bs # es) = bs @ rx_data es"
| "rx_data (RxError # es) = []"

text \<open>
  \<open>polls_until w c b\<close>: the number of rounds the wait loop makes when it is entered at
  step \<open>c\<close> with \<open>b\<close> rounds left: it stops at the first round whose poll finds the
  channel, or when the rounds run out.
\<close>

fun polls_until :: "world \<Rightarrow> nat \<Rightarrow> nat \<Rightarrow> nat" where
  "polls_until w c 0 = 0"
| "polls_until w c (Suc b) =
     (if ready_at w (Suc c) \<or> b = 0 then 1 else Suc (polls_until w (Suc (Suc c)) b))"

text \<open>
  \<open>write_events fd w c bufs\<close>: the events of writing the buffers \<open>bufs\<close> on descriptor
  \<open>fd\<close>, one \<^verbatim>\<open>write\<close> each, from step \<open>c\<close> on, when nothing is done after a \<^verbatim>\<open>write\<close> that
  raises a fatal \<^verbatim>\<open>SIGPIPE\<close>.  \<open>writes_survive w c n\<close>: none of \<open>n\<close> writes issued at the
  steps from \<open>c\<close> on is such a write.
\<close>

fun write_events :: "int \<Rightarrow> world \<Rightarrow> nat \<Rightarrow> string list \<Rightarrow> event list" where
  "write_events fd w c [] = []"
| "write_events fd w c (b # bs) =
     Write fd b (write_result w c)
       # (if pipe_kills w c then [Died SIGPIPE] else write_events fd w (Suc c) bs)"

fun writes_survive :: "world \<Rightarrow> nat \<Rightarrow> nat \<Rightarrow> bool" where
  "writes_survive w c 0 = True"
| "writes_survive w c (Suc n) = (\<not> pipe_kills w c \<and> writes_survive w (Suc c) n)"

text \<open>The three paths that \<^verbatim>\<open>sprintf\<close> builds from the identifier.\<close>

abbreviation channel_path :: "int \<Rightarrow> string" where
  "channel_path pid \<equiv> ''/tmp/.java_pid'' @ dec_int pid"

abbreviation marker_primary :: "int \<Rightarrow> string" where
  "marker_primary pid \<equiv> ''/proc/'' @ dec_int pid @ ''/cwd/.attach_pid'' @ dec_int pid"

abbreviation marker_fallback :: "int \<Rightarrow> string" where
  "marker_fallback pid \<equiv> ''/tmp/.attach_pid'' @ dec_int pid"

text \<open>
  When the Activator is entered at step \<open>clock w\<close> and one of its two \<^verbatim>\<open>creat\<close> calls
  succeeds: \<open>marker_path\<close> is the path of the marker it created, \<open>marker_events\<close> are its
  calls up to and including \<^verbatim>\<open>kill\<close>, and \<open>kill_step\<close> is the step at which \<^verbatim>\<open>kill\<close> is
  issued (the third call when the primary location worked, the fourth otherwise).
\<close>

definition marker_path :: "int \<Rightarrow> world \<Rightarrow> string" where
  "marker_path pid w = (if ret w (clock w) \<noteq> - 1 then marker_primary pid else marker_fallback pid)"

definition marker_events :: "int \<Rightarrow> world \<Rightarrow> event list" where
  "marker_events pid w =
     (if ret w (clock w) \<noteq> - 1
      then [Creat (marker_primary pid) 432 (ret w (clock w)), Close (ret w (clock w)),
            Kill pid SIGQUIT (ret w (clock w + 2))]
      else [Creat (marker_primary pid) 432 (- 1),
            Creat (marker_fallback pid) 432 (ret w (Suc (clock w))),
            Close (ret w (Suc (clock w))), Kill pid SIGQUIT (ret w (clock w + 3))])"

definition kill_step :: "world \<Rightarrow> nat" where
  "kill_step w = clock w + (if ret w (clock w) \<noteq> - 1 then 2 else 3)"

text \<open>
  \<open>activating ev\<close>: the event is one of the calls of the Channel Locator and the
  Activator, or the death of the process.  \<open>relaying ev\<close>: the event is one of the calls
  made once the connection is established, or the death of the process.
\<close>

definition activating :: "event \<Rightarrow> bool" where
  "activating ev =
     (case ev of Stat p r m \<Rightarrow> True | Creat p md fd \<Rightarrow> True | Close fd \<Rightarrow> True
      | Kill pid sg r \<Rightarrow> True | Sleep n \<Rightarrow> True | Unlink p r \<Rightarrow> True | Died sg \<Rightarrow> True
      | _ \<Rightarrow> False)"

definition relaying :: "event \<Rightarrow> bool" where
  "relaying ev =
     (case ev of Printf s \<Rightarrow> True | Write fd bs r \<Rightarrow> True | Read fd n r bs \<Rightarrow> True
      | Close fd \<Rightarrow> True | Died sg \<Rightarrow> True | _ \<Rightarrow> False)"

text \<open>
  \<open>activation pid w\<close>: the events of the Activator inside \<open>main\<close>, which calls it after the
  first check of the channel, and only when that check finds nothing.
\<close>

definition activation :: "int \<Rightarrow> world \<Rightarrow> event list" where
  "activation pid w =
     (let w1 = emit (Stat (channel_path pid) (ret w (clock w)) (st_mode_at w (clock w))) w
      in if ready_at w (clock w) then [] else since w1 (snd (start_attach_mechanism pid w1)))"

text \<open>
  \<open>session fd argc args v\<close>: the statements of \<open>main\<close> that follow a successful
  \<^verbatim>\<open>connect_socket\<close>, from the first \<^verbatim>\<open>printf\<close> to the final \<^verbatim>\<open>return 0\<close>, run in the world
  \<open>v\<close> with the connection on descriptor \<open>fd\<close>.
\<close>

definition session :: "int \<Rightarrow> int \<Rightarrow> string list \<Rightarrow> world \<Rightarrow> (signal + int) \<times> world" where
  "session fd argc args v =
     then_do (printf ''Connected to remove JVM\<newline>'' v) (\<lambda>u w4.
     then_do (write_command fd argc args w4) (\<lambda>u w5.
     then_do (read_response fd w5) (\<lambda>u w6.
     then_do (printf ''\<newline>'' (sys_close fd w6)) (\<lambda>u. c_exit 0))))"

section \<open>Example worlds\<close>

text \<open>
  Worlds at the start of the program, before any call, used as concrete inputs.  In
  \<open>at_start\<close> jattach is process 1000, the leader of its own process group, every signal
  has its default action, standard output is a terminal, every call returns 0, and no
  \<^verbatim>\<open>write\<close> meets a closed peer.  The other worlds differ from it as follows.

  \<^item> \<open>nothing_there\<close>: every call fails; no file exists, nothing can be created, no process
    can be signalled.
  \<^item> \<open>regular_file\<close>: \<^verbatim>\<open>stat\<close> finds a regular file of mode 0100644.
  \<^item> \<open>ready_at_third_poll\<close>: for the wait loop entered at step 0, whose polls are the calls
    at steps 1, 3, 5 and so on; only the poll at step 5 finds the socket (mode 0140777).
  \<^item> \<open>fallback_marker\<close>: for the Activator entered at step 0; \<^verbatim>\<open>creat\<close> fails at the primary
    location (step 0) and returns descriptor 3 at the fallback (step 1); the first poll
    (step 5) finds nothing, the second (step 7) finds the socket (mode 0140777); every
    other call returns 0.
  \<^item> \<open>dead_target\<close>: for the Activator entered at step 0; \<^verbatim>\<open>creat\<close> returns descriptor 3 at
    the primary location (step 0); every later call fails, \<^verbatim>\<open>kill\<close> (step 2) included,
    and the channel never appears.
  \<^item> \<open>own_group\<close>: for the Activator entered at step 0 with the identifier 0; \<^verbatim>\<open>creat\<close>
    fails at the primary location (there is no \<^verbatim>\<open>/proc/0\<close>) and returns descriptor 3 at
    the fallback (step 1); every other call returns 0.
  \<^item> \<open>three_chunks\<close>: the peer sends \<open>hello\<close>, an empty chunk and \<open>wor\<close>, then closes.
  \<^item> \<open>io_failure\<close>: the channel is live (step 0), \<^verbatim>\<open>socket\<close> returns descriptor 3 (step 1)
    and \<^verbatim>\<open>connect\<close> succeeds (step 2); the five writes of the request (steps 5 to 9) fail
    with an error other than \<^verbatim>\<open>EPIPE\<close>; the peer delivers \<open>partial\<close>, then the connection
    breaks; every other call returns 0.
  \<^item> \<open>live_channel\<close>: the channel is live, \<^verbatim>\<open>socket\<close> returns descriptor 3 (step 1) and
    every other call returns 0; the peer sends \<open>hello\<close>, an empty chunk and \<open>wor\<close>, then
    closes.
  \<^item> \<open>piped_output\<close>: as \<open>live_channel\<close>, with standard output a pipe or a file: fully
    buffered.
  \<^item> \<open>closed_peer\<close>: as \<open>piped_output\<close>, but the peer closes the connection as soon as it
    is made: every \<^verbatim>\<open>write\<close> from step 4 on, the first of the request, meets \<^verbatim>\<open>EPIPE\<close>.
  \<^item> \<open>no_channel\<close>: no channel exists (step 0), \<^verbatim>\<open>creat\<close> fails at the primary location
    (step 1) and returns descriptor 3 at the fallback (step 2); \<^verbatim>\<open>kill\<close> (step 4) has the
    value 0 and every other call fails.
\<close>

definition at_start :: world where [simp]:
  "at_start =
     \<lparr>ret = (\<lambda>t. 0), st_mode_at = (\<lambda>t. 0), rx = [], trace = [], epipe = (\<lambda>t. False),
       ignored = (\<lambda>sg. False), self_pid = 1000, self_pgrp = 1000, stdout_mode = LineBuffered,
       stdio = []\<rparr>"

definition nothing_there :: world where [simp]:
  "nothing_there = at_start\<lparr>ret := (\<lambda>t. - 1)\<rparr>"

definition regular_file :: world where [simp]:
  "regular_file = at_start\<lparr>st_mode_at := (\<lambda>t. 0x81A4)\<rparr>"

definition ready_at_third_poll :: world where [simp]:
  "ready_at_third_poll =
     at_start\<lparr>ret := (\<lambda>t. if t = 5 then 0 else - 1), st_mode_at := (\<lambda>t. 0xC1FF)\<rparr>"

definition fallback_marker :: world where [simp]:
  "fallback_marker =
     at_start\<lparr>ret := (\<lambda>t. if t = 0 then - 1 else if t = 1 then 3 else if t = 5 then - 1 else 0),
       st_mode_at := (\<lambda>t. 0xC1FF)\<rparr>"

definition dead_target :: world where [simp]:
  "dead_target = at_start\<lparr>ret := (\<lambda>t. if t = 0 then 3 else - 1)\<rparr>"

definition own_group :: world where [simp]:
  "own_group = at_start\<lparr>ret := (\<lambda>t. if t = 0 then - 1 else if t = 1 then 3 else 0)\<rparr>"



definition live_channel :: world where [simp]:
  "live_channel =
     at_start\<lparr>ret := (\<lambda>t. if t = 1 then 3 else 0), st_mode_at := (\<lambda>t. 0xC1FF),
       rx := [Chunk ''hello'', Chunk [], Chunk ''wor'']\<rparr>"

definition piped_output :: world where [simp]:
  "piped_output = live_channel\<lparr>stdout_mode := FullyBuffered\<rparr>"

definition closed_peer :: world where [simp]:
  "closed_peer = piped_output\<lparr>epipe := (\<lambda>t. 4 \<le> t)\<rparr>"

definition no_channel :: world where [simp]:
  "no_channel = at_start\<lparr>ret := (\<lambda>t. if t = 2 then 3 else if t = 4 then 0 else - 1)\<rparr>"

section \<open>Facts about the model\<close>

lemma emit_simps [simp]:
  "ret (emit e w) = ret w"
  "st_mode_at (emit e w) = st_mode_at w"
  "rx (emit e w) = rx w"
  "trace (emit e w) = trace w @ [e]"
  "clock (emit e w) = Suc (clock w)"
  "epipe (emit e w) = epipe w"
  "ignored (emit e w) = ignored w"
  "self_pid (emit e w) = self_pid w"
  "self_pgrp (emit e w) = self_pgrp w"
  "stdout_mode (emit e w) = stdout_mode w"
  "stdio (emit e w) = stdio w"
  by (simp_all add: emit_def clock_def)

lemma emits_simps [simp]:
  "ret (emits evs w) = ret w"
  "st_mode_at (emits evs w) = st_mode_at w"
  "rx (emits evs w) = rx w"
  "trace (emits evs w) = trace w @ evs"
  "clock (emits evs w) = clock w + length evs"
  "epipe (emits evs w) = epipe w"
  "ignored (emits evs w) = ignored w"
  "self_pid (emits evs w) = self_pid w"
  "self_pgrp (emits evs w) = self_pgrp w"
  "stdout_mode (emits evs w) = stdout_mode w"
  "stdio (emits evs w) = stdio w"
  by (simp_all add: emits_def clock_def)

lemma clock_update [simp]:
  "clock (w\<lparr>rx := es\<rparr>) = clock w"
  "clock (w\<lparr>stdio := bs\<rparr>) = clock w"
  by (simp_all add: clock_def)

lemma emits_Nil [simp]: "emits [] w = w"
  by (simp add: emits_def)

lemma emits_emit: "emits evs (emit e w) = emits (e # evs) w"
  by (simp add: emits_def emit_def)

lemma emits_emits: "emits evs (emits evs' w) = emits (evs' @ evs) w"
  by (simp add: emits_def)

lemma emit_as_emits: "emit e w = emits [e] w"
  by (simp add: emits_def emit_def)

lemma then_do_simps [simp]:
  "then_do (Inl sg, w) f = (Inl sg, w)"
  "then_do (Inr x, w) f = f x w"
  by (simp_all add: then_do_def)

lemma since_append: "trace w' = trace w @ evs \<Longrightarrow> since w w' = evs"
  by (simp add: since_def clock_def)

lemma since_emits [simp]: "since w (emits evs w) = evs"
  by (simp add: since_def clock_def)

lemma since_self [simp]: "since w w = []"
  by (simp add: since_def clock_def)

lemma since_emit [simp]: "since w (emit e w) = [e]"
  by (simp add: since_def clock_def)

lemma check_socket_eq:
  "check_socket pid w =
     (if ret w (clock w) = 0 \<and> S_ISSOCK (st_mode_at w (clock w)) then 1 else 0,
      emit (Stat (''/tmp/.java_pid'' @ dec_int pid) (ret w (clock w)) (st_mode_at w (clock w))) w)"
  by (simp add: check_socket_def sys_stat_def Let_def)

lemma sys_write_eq:
  "sys_write fd bs w =
     (if pipe_kills w (clock w) then Inl SIGPIPE else Inr (write_result w (clock w)),
      emits (write_events fd w (clock w) [bs]) w)"
  by (simp add: sys_write_def Let_def emits_def emit_def)

lemma pipe_kills_emits [simp]:
  "pipe_kills (emits evs w) t = pipe_kills w t"
  "pipe_kills (emit e w) t = pipe_kills w t"
  "pipe_kills (w\<lparr>stdio := bs\<rparr>) t = pipe_kills w t"
  "pipe_kills (w\<lparr>rx := es\<rparr>) t = pipe_kills w t"
  by (simp_all add: pipe_kills_def)

lemma write_result_emits [simp]:
  "write_result (emits evs w) t = write_result w t"
  "write_result (emit e w) t = write_result w t"
  "write_result (w\<lparr>stdio := bs\<rparr>) t = write_result w t"
  "write_result (w\<lparr>rx := es\<rparr>) t = write_result w t"
  by (simp_all add: write_result_def)

lemma write_events_emits [simp]:
  "write_events fd (emits evs w) c bs = write_events fd w c bs"
  "write_events fd (emit e w) c bs = write_events fd w c bs"
  "write_events fd (w\<lparr>stdio := s\<rparr>) c bs = write_events fd w c bs"
  "write_events fd (w\<lparr>rx := es\<rparr>) c bs = write_events fd w c bs"
  by (induction bs arbitrary: c; simp)+

lemma writes_survive_emits [simp]:
  "writes_survive (emits evs w) c n = writes_survive w c n"
  "writes_survive (emit e w) c n = writes_survive w c n"
  "writes_survive (w\<lparr>stdio := s\<rparr>) c n = writes_survive w c n"
  "writes_survive (w\<lparr>rx := es\<rparr>) c n = writes_survive w c n"
  by (induction n arbitrary: c; simp)+

text \<open>Writing a list of buffers one after the other, as long as the process lives.\<close>

lemma write_args_eq:
  "write_args fd argc argv i w =
     (let bufs = map (\<lambda>j. (if int j < argc then argv ! j else '''') @ [NUL]) [nat i ..< 4]
      in (if writes_survive w (clock w) (length bufs) then Inr () else Inl SIGPIPE,
          emits (write_events fd w (clock w) bufs) w))" if "0 \<le> i"
  using that
proof (induction fd argc argv i w rule: write_args.induct)
  case (1 fd argc argv i w)
  show ?case
  proof (cases "i < 4")
    case False
    then show ?thesis by (simp add: write_args.simps [of fd argc argv i w])
  next
    case True
    then have up: "[nat i ..< 4] = nat i # [nat (i + 1) ..< 4]"
      using "1.prems" by (simp add: upt_conv_Cons nat_add_distrib)
    have arg: "(if i < argc then argv ! nat i else '''') = (if int (nat i) < argc then argv ! nat i else '''')"
      using "1.prems" by simp
    show ?thesis
    proof (cases "pipe_kills w (clock w)")
      case dies: True
      then show ?thesis
        using True "1.prems"
        by (simp add: write_args.simps [of fd argc argv i w] sys_write_eq up Let_def)
    next
      case lives: False
      have ih: "write_args fd argc argv (i + 1) (emits (write_events fd w (clock w) [(if i < argc then argv ! nat i else '''') @ [NUL]]) w) =
          (let bufs = map (\<lambda>j. (if int j < argc then argv ! j else '''') @ [NUL]) [nat (i + 1) ..< 4]
           in (if writes_survive w (Suc (clock w)) (length bufs) then Inr () else Inl SIGPIPE,
               emits (write_events fd w (clock w) [(if i < argc then argv ! nat i else '''') @ [NUL]]
                  @ write_events fd w (Suc (clock w)) bufs) w))"
        using "1.IH" [OF True refl, of "emits (write_events fd w (clock w) [(if i < argc then argv ! nat i else '''') @ [NUL]]) w"] "1.prems" lives
        by (simp add: Let_def emits_emits)
      show ?thesis
        using True lives "1.prems" ih
        by (simp add: write_args.simps [of fd argc argv i w] sys_write_eq up Let_def del: upt_Suc)
    qed
  qed
qed

lemma obs_Nil:
  "created [] = []" "unlinked [] = []" "kills [] = []" "polls [] = []" "printf_args [] = []"
  "stdout_bytes [] = []" "received [] = []" "connected [] = []" "sent fd [] = []"
  by (simp_all add: created_def unlinked_def kills_def polls_def printf_args_def stdout_bytes_def
      received_def connected_def sent_def)

lemma obs_append:
  "created (xs @ ys) = created xs @ created ys"
  "unlinked (xs @ ys) = unlinked xs @ unlinked ys"
  "kills (xs @ ys) = kills xs @ kills ys"
  "polls (xs @ ys) = polls xs @ polls ys"
  "printf_args (xs @ ys) = printf_args xs @ printf_args ys"
  "stdout_bytes (xs @ ys) = stdout_bytes xs @ stdout_bytes ys"
  "received (xs @ ys) = received xs @ received ys"
  "connected (xs @ ys) = connected xs @ connected ys"
  "sent fd (xs @ ys) = sent fd xs @ sent fd ys"
  by (simp_all add: created_def unlinked_def kills_def polls_def printf_args_def stdout_bytes_def
      received_def connected_def sent_def)

lemma obs_Cons:
  "created (ev # evs) =
     (case ev of Creat p md fd \<Rightarrow> if fd = - 1 then [] else [p] | _ \<Rightarrow> []) @ created evs"
  "unlinked (ev # evs) = (case ev of Unlink p r \<Rightarrow> [(p, r)] | _ \<Rightarrow> []) @ unlinked evs"
  "kills (ev # evs) = (case ev of Kill pid sg r \<Rightarrow> [(pid, sg, r)] | _ \<Rightarrow> []) @ kills evs"
  "polls (ev # evs) = (case ev of Stat p r m \<Rightarrow> [(r, m)] | _ \<Rightarrow> []) @ polls evs"
  "printf_args (ev # evs) = (case ev of Printf s \<Rightarrow> [s] | _ \<Rightarrow> []) @ printf_args evs"
  "stdout_bytes (ev # evs) =
     (case ev of Write fd' bs r \<Rightarrow> if fd' = 1 then bs else [] | _ \<Rightarrow> []) @ stdout_bytes evs"
  "received (ev # evs) = (case ev of Read fd' n r bs \<Rightarrow> bs | _ \<Rightarrow> []) @ received evs"
  "connected (ev # evs) =
     (case ev of Connect fd' p r \<Rightarrow> if r = - 1 then [] else [fd'] | _ \<Rightarrow> []) @ connected evs"
  "sent fd (ev # evs) =
     (case ev of Write fd' bs r \<Rightarrow> if fd' = fd then [bs] else [] | _ \<Rightarrow> []) @ sent fd evs"
  by (simp_all add: created_def unlinked_def kills_def polls_def printf_args_def stdout_bytes_def
      received_def connected_def sent_def split: event.splits)

lemma obs_relaying:
  assumes "list_all relaying evs"
  shows "created evs = []" "unlinked evs = []" "kills evs = []" "polls evs = []"
    "connected evs = []"
  using assms
  by (induction evs; simp add: obs_Nil obs_Cons relaying_def split: event.splits)+

lemma obs_activating:
  assumes "list_all activating evs"
  shows "printf_args evs = []" "stdout_bytes evs = []" "received evs = []" "connected evs = []"
    "sent fd evs = []"
  using assms
  by (induction evs; simp add: obs_Nil obs_Cons activating_def split: event.splits)+

text \<open>What a run of writes shows.\<close>

lemma relaying_write_events: "list_all relaying (write_events fd w c bs)"
  by (induction bs arbitrary: c) (simp_all add: relaying_def)

lemma obs_write_events:
  "printf_args (write_events fd w c bs) = []"
  "received (write_events fd w c bs) = []"
  "fd' \<noteq> fd \<Longrightarrow> sent fd' (write_events fd w c bs) = []"
  by (induction bs arbitrary: c; simp add: obs_Nil obs_Cons)+

lemma write_events_survive:
  "writes_survive w c (length bs) \<Longrightarrow>
     sent fd (write_events fd w c bs) = bs \<and> length (write_events fd w c bs) = length bs"
  by (induction bs arbitrary: c) (simp_all add: obs_Nil obs_Cons)

lemma write_events_prefix:
  "sent fd (write_events fd w c bs) = take (length (sent fd (write_events fd w c bs))) bs"
  by (induction bs arbitrary: c) (simp_all add: obs_Nil obs_Cons)

lemma write_command_eq:
  "write_command fd argc argv w =
     (if writes_survive w (clock w) 5 then Inr () else Inl SIGPIPE,
      emits (write_events fd w (clock w)
        [''1'' @ [NUL],
         (if 0 < argc then argv ! 0 else '''') @ [NUL],
         (if 1 < argc then argv ! 1 else '''') @ [NUL],
         (if 2 < argc then argv ! 2 else '''') @ [NUL],
         (if 3 < argc then argv ! 3 else '''') @ [NUL]]) w)"
proof -
  have four: "[0 ..< 4] = [0, 1, 2, Suc 2]" by (simp add: upt_conv_Cons eval_nat_numeral)
  show ?thesis
    by (cases "pipe_kills w (clock w)")
      (simp_all add: write_command_def sys_write_eq write_args_eq Let_def four emits_emits
        eval_nat_numeral)
qed

lemma emits_update:
  "(emits evs w)\<lparr>rx := es\<rparr> = emits evs (w\<lparr>rx := es\<rparr>)"
  "(emits evs w)\<lparr>stdio := bs\<rparr> = emits evs (w\<lparr>stdio := bs\<rparr>)"
  "emit e w = emits [e] w"
  by (simp_all add: emits_def emit_def)

lemma since_emits_update [simp]:
  "since w (emits evs (w\<lparr>stdio := bs\<rparr>)) = evs"
  "since w (emits evs (w\<lparr>rx := es\<rparr>)) = evs"
  "since w (emits evs (w\<lparr>rx := es, stdio := bs\<rparr>)) = evs"
  by (simp_all add: since_def clock_def emits_def)

lemma upto_last_newline_end:
  "s \<noteq> [] \<Longrightarrow> last s = newline \<Longrightarrow> upto_last_newline (bs @ s) = (bs @ s, [])"
proof -
  assume "s \<noteq> []" and "last s = newline"
  then obtain t where s: "s = t @ [newline]" by (metis append_butlast_last_id)
  show ?thesis by (simp add: s upto_last_newline_def)
qed

lemma printf_line:
  assumes "s \<noteq> []" and "last s = newline"
  shows "printf s w =
     (if stdout_mode w = FullyBuffered then (Inr (), emits [Printf s] (w\<lparr>stdio := stdio w @ s\<rparr>))
      else (if pipe_kills w (Suc (clock w)) then Inl SIGPIPE else Inr (),
            emits (Printf s # write_events 1 w (Suc (clock w)) [stdio w @ s]) (w\<lparr>stdio := []\<rparr>)))"
proof -
  have nl: "newline \<in> set s" using assms by (metis last_in_set)
  show ?thesis
    using assms(1) nl
    by (cases "stdout_mode w")
      (simp_all add: printf_def fflush_def flush_lines_def upto_last_newline_end [OF assms]
        sys_write_eq Let_def emits_update emits_emits)
qed

lemma printf_cases:
  assumes "s \<noteq> []" and "last s = newline"
  obtains
    (returned) evs bs where
      "printf s w = (Inr (), emits evs (w\<lparr>stdio := bs\<rparr>))"
      "printf_args evs = [s]" "received evs = []" "list_all relaying evs"
      "\<And>fd. fd \<noteq> 1 \<Longrightarrow> sent fd evs = []"
      "stdout_mode w = FullyBuffered \<Longrightarrow> stdout_bytes evs = [] \<and> bs = stdio w @ s"
      "stdout_mode w \<noteq> FullyBuffered \<Longrightarrow> stdout_bytes evs = stdio w @ s \<and> bs = []"
  | (killed) evs bs where
      "printf s w = (Inl SIGPIPE, emits evs (w\<lparr>stdio := bs\<rparr>))"
      "printf_args evs = [s]" "list_all relaying evs"
proof (cases "stdout_mode w \<noteq> FullyBuffered \<and> pipe_kills w (Suc (clock w))")
  case True
  then show ?thesis
    using killed [of "Printf s # write_events 1 w (Suc (clock w)) [stdio w @ s]" "[]"]
    by (simp add: printf_line [OF assms] obs_Cons obs_Nil relaying_def)
next
  case False
  show ?thesis
  proof (cases "stdout_mode w = FullyBuffered")
    case True
    then show ?thesis
      using returned [of "[Printf s]" "stdio w @ s"]
      by (simp add: printf_line [OF assms] obs_Cons obs_Nil relaying_def)
  next
    case unbuf: False
    then show ?thesis
      using False returned [of "Printf s # write_events 1 w (Suc (clock w)) [stdio w @ s]" "[]"]
      by (simp add: printf_line [OF assms] obs_Cons obs_Nil relaying_def)
  qed
qed

lemma c_exit_eq:
  "c_exit status w =
     (if stdio w = [] then (Inr status, w)
      else (if pipe_kills w (clock w) then Inl SIGPIPE else Inr status,
            emits (write_events 1 w (clock w) [stdio w]) (w\<lparr>stdio := []\<rparr>)))"
  by (simp add: c_exit_def fflush_def sys_write_eq emits_update)

lemma c_exit_cases:
  obtains
    (returned) evs where
      "c_exit status w = (Inr status, emits evs (w\<lparr>stdio := []\<rparr>))"
      "printf_args evs = []" "received evs = []" "list_all relaying evs"
      "\<And>fd. fd \<noteq> 1 \<Longrightarrow> sent fd evs = []"
      "stdout_bytes evs = stdio w"
  | (killed) evs where
      "c_exit status w = (Inl SIGPIPE, emits evs (w\<lparr>stdio := []\<rparr>))"
      "printf_args evs = []" "list_all relaying evs"
proof (cases "stdio w = []")
  case True
  have "w\<lparr>stdio := []\<rparr> = w" using True by simp
  then show ?thesis
    using True returned [of "[]"] by (simp add: c_exit_eq obs_Nil)
next
  case False
  show ?thesis
  proof (cases "pipe_kills w (clock w)")
    case True
    then show ?thesis
      using False killed [of "write_events 1 w (clock w) [stdio w]"]
      by (simp add: c_exit_eq obs_Cons obs_Nil relaying_def)
  next
    case lives: False
    then show ?thesis
      using False returned [of "write_events 1 w (clock w) [stdio w]"]
      by (simp add: c_exit_eq obs_Cons obs_Nil relaying_def)
  qed
qed

lemma write_command_cases:
  obtains
    (returned) evs where
      "write_command fd argc argv w = (Inr (), emits evs w)"
      "sent fd evs =
        [''1'' @ [NUL],
         (if 0 < argc then argv ! 0 else '''') @ [NUL],
         (if 1 < argc then argv ! 1 else '''') @ [NUL],
         (if 2 < argc then argv ! 2 else '''') @ [NUL],
         (if 3 < argc then argv ! 3 else '''') @ [NUL]]"
      "length evs = 5"
      "printf_args evs = []" "received evs = []" "list_all relaying evs"
      "\<And>fd'. fd' \<noteq> fd \<Longrightarrow> sent fd' evs = []"
  | (killed) evs where
      "write_command fd argc argv w = (Inl SIGPIPE, emits evs w)"
      "printf_args evs = []" "list_all relaying evs"
proof -
  let ?bufs = "[''1'' @ [NUL],
         (if 0 < argc then argv ! 0 else '''') @ [NUL],
         (if 1 < argc then argv ! 1 else '''') @ [NUL],
         (if 2 < argc then argv ! 2 else '''') @ [NUL],
         (if 3 < argc then argv ! 3 else '''') @ [NUL]]"
  define E where "E = write_events fd w (clock w) ?bufs"
  have quiet: "printf_args E = []" "received E = []"
    unfolding E_def by (rule obs_write_events)+
  have rel: "list_all relaying E"
    unfolding E_def by (rule relaying_write_events)
  have other: "\<And>fd'. fd' \<noteq> fd \<Longrightarrow> sent fd' E = []"
    unfolding E_def by (rule obs_write_events(3))
  show ?thesis
  proof (cases "writes_survive w (clock w) 5")
    case True
    then have "writes_survive w (clock w) (length ?bufs)" by (simp add: eval_nat_numeral)
    from write_events_survive [OF this, of fd]
    have all: "sent fd E = ?bufs" and len: "length E = 5" unfolding E_def by simp_all
    have eq: "write_command fd argc argv w = (Inr (), emits E w)"
      using True by (simp only: write_command_eq E_def if_True)
    show ?thesis by (rule returned [OF eq all len quiet rel other])
  next
    case False
    have eq: "write_command fd argc argv w = (Inl SIGPIPE, emits E w)"
      using False by (simp only: write_command_eq E_def if_False)
    show ?thesis by (rule killed [OF eq quiet(1) rel])
  qed
qed

lemma rx_data_dropWhile: "rx_data (dropWhile (\<lambda>e. e = Chunk []) es) = rx_data es"
  by (induction es rule: rx_data.induct) auto

lemma RxError_dropWhile:
  "RxError \<in> set (dropWhile (\<lambda>e. e = Chunk []) es) \<longleftrightarrow> RxError \<in> set es"
  by (induction es) auto

lemma dropWhile_head: "dropWhile (\<lambda>e. e = Chunk []) es = Chunk bs # rest \<Longrightarrow> bs \<noteq> []"
  using hd_dropWhile [of "\<lambda>e. e = Chunk []" es] by auto

lemma sys_read_cases:
  obtains
    (closed) "rx_data (rx w) = []" "RxError \<notin> set (rx w)"
      "sys_read fd n w = ((0, []), emit (Read fd n 0 []) (w\<lparr>rx := []\<rparr>))"
  | (failed) es where "rx_data (rx w) = []" "RxError \<in> set (rx w)"
      "sys_read fd n w = ((- 1, []), emit (Read fd n (- 1) []) (w\<lparr>rx := es\<rparr>))"
  | (data) bs es where "0 < n \<longrightarrow> bs \<noteq> []" "length bs \<le> n" "rx_data (rx w) = bs @ rx_data es"
      "RxError \<in> set (rx w) \<longleftrightarrow> RxError \<in> set es"
      "sys_read fd n w =
         ((int (length bs), bs), emit (Read fd n (int (length bs)) bs) (w\<lparr>rx := es\<rparr>))"
proof (cases "dropWhile (\<lambda>e. e = Chunk []) (rx w)")
  case Nil
  have "sys_read fd n w = ((0, []), emit (Read fd n 0 []) (w\<lparr>rx := []\<rparr>))"
    unfolding sys_read_def Nil by simp
  moreover have "rx_data (rx w) = []"
    using rx_data_dropWhile [of "rx w"] unfolding Nil by simp
  moreover have "RxError \<notin> set (rx w)"
    using RxError_dropWhile [of "rx w"] unfolding Nil by simp
  ultimately show ?thesis using closed by blast
next
  case (Cons e rest)
  show ?thesis
  proof (cases e)
    case (Chunk cs)
    note shape = Cons [unfolded Chunk]
    let ?es = "if drop n cs = [] then rest else Chunk (drop n cs) # rest"
    have ne: "cs \<noteq> []" using dropWhile_head [OF shape] .
    have "sys_read fd n w =
        ((int (length (take n cs)), take n cs),
         emit (Read fd n (int (length (take n cs))) (take n cs)) (w\<lparr>rx := ?es\<rparr>))"
      unfolding sys_read_def shape by (simp add: Let_def)
    moreover have "0 < n \<longrightarrow> take n cs \<noteq> []" using ne by (cases cs) auto
    moreover have "length (take n cs) \<le> n" by simp
    moreover have "rx_data (rx w) = take n cs @ rx_data ?es"
    proof -
      have "rx_data (rx w) = cs @ rx_data rest"
        using rx_data_dropWhile [of "rx w", symmetric] unfolding shape by simp
      moreover have "take n cs @ rx_data ?es = cs @ rx_data rest"
        by (simp flip: append_assoc)
      ultimately show ?thesis by simp
    qed
    moreover have "RxError \<in> set (rx w) \<longleftrightarrow> RxError \<in> set ?es"
      using RxError_dropWhile [of "rx w"] unfolding shape by simp
    ultimately show ?thesis using data [of "take n cs" ?es] by blast
  next
    case RxError
    note shape = Cons [unfolded RxError]
    have "sys_read fd n w = ((- 1, []), emit (Read fd n (- 1) []) (w\<lparr>rx := rest\<rparr>))"
      unfolding sys_read_def shape by simp
    moreover have "rx_data (rx w) = []"
      using rx_data_dropWhile [of "rx w"] unfolding shape by simp
    moreover have "RxError \<in> set (rx w)"
      using RxError_dropWhile [of "rx w"] unfolding shape by simp
    ultimately show ?thesis using failed by blast
  qed
qed

text \<open>
  One round of the relay loop that finds data: the \<^verbatim>\<open>read\<close> and the \<^verbatim>\<open>write\<close> on
  descriptor 1.
\<close>

lemma read_response_step:
  assumes "sys_read fd 1024 w =
      ((int (length bs), bs), emit (Read fd 1024 (int (length bs)) bs) (w\<lparr>rx := es\<rparr>))"
    and "bs \<noteq> []"
  shows "read_response fd w =
     (if pipe_kills w (Suc (clock w))
      then (Inl SIGPIPE,
            emits [Read fd 1024 (int (length bs)) bs, Write 1 bs (- 1), Died SIGPIPE] (w\<lparr>rx := es\<rparr>))
      else read_response fd
            (emits [Read fd 1024 (int (length bs)) bs, Write 1 bs (write_result w (Suc (clock w)))]
               (w\<lparr>rx := es\<rparr>)))"
  using assms(2)
  by (simp add: read_response.simps [of fd w] assms(1) sys_write_eq emits_update emits_emits
      pipe_kills_def write_result_def)

text \<open>
  What the relay loop does.  Either it runs to its end: the bytes read are those the
  peer delivered, the bytes handed to descriptor 1 are the same bytes, nothing is given
  to \<^verbatim>\<open>printf\<close> or written elsewhere, and the last call is the \<^verbatim>\<open>read\<close> that found the
  connection closed (0) or broken (-1).  Or a \<^verbatim>\<open>write\<close> on descriptor 1 is fatal: up to
  there the bytes handed to descriptor 1 are the bytes read.
\<close>

lemma read_response_shape:
  defines "relay_returned \<equiv> \<lambda>fd w evs.
     received evs = rx_data (rx w) \<and> stdout_bytes evs = rx_data (rx w) \<and> printf_args evs = [] \<and>
     list_all relaying evs \<and> (\<forall>fd'. fd' \<noteq> 1 \<longrightarrow> sent fd' evs = []) \<and> evs \<noteq> [] \<and>
     last evs = Read fd 1024 (if RxError \<in> set (rx w) then - 1 else 0) []"
  shows "(\<exists>evs es. read_response fd w = (Inr (), emits evs (w\<lparr>rx := es\<rparr>)) \<and> relay_returned fd w evs)
   \<or> (\<exists>evs es. read_response fd w = (Inl SIGPIPE, emits evs (w\<lparr>rx := es\<rparr>)) \<and>
         printf_args evs = [] \<and> list_all relaying evs \<and> stdout_bytes evs = received evs)"
proof (induction fd w rule: read_response.induct)
  case (1 fd w)
  show ?case
  proof (cases rule: sys_read_cases [of w fd 1024])
    case closed
    have "read_response fd w = (Inr (), emits [Read fd 1024 0 []] (w\<lparr>rx := []\<rparr>))"
      by (simp add: read_response.simps [of fd w] closed(3) emits_update)
    moreover have "relay_returned fd w [Read fd 1024 0 []]"
      using closed(1,2) by (simp add: relay_returned_def obs_Cons obs_Nil relaying_def)
    ultimately show ?thesis by blast
  next
    case (failed es)
    have "read_response fd w = (Inr (), emits [Read fd 1024 (- 1) []] (w\<lparr>rx := es\<rparr>))"
      by (simp add: read_response.simps [of fd w] failed(3) emits_update)
    moreover have "relay_returned fd w [Read fd 1024 (- 1) []]"
      using failed(1,2) by (simp add: relay_returned_def obs_Cons obs_Nil relaying_def)
    ultimately show ?thesis by blast
  next
    case (data bs es)
    then have ne: "bs \<noteq> []" by simp
    note step = read_response_step [OF data(5) ne]
    let ?R = "Read fd 1024 (int (length bs)) bs"
    show ?thesis
    proof (cases "pipe_kills w (Suc (clock w))")
      case True
      have "read_response fd w = (Inl SIGPIPE, emits [?R, Write 1 bs (- 1), Died SIGPIPE] (w\<lparr>rx := es\<rparr>))"
        using True by (simp add: step)
      moreover have "printf_args [?R, Write 1 bs (- 1), Died SIGPIPE] = []"
        "list_all relaying [?R, Write 1 bs (- 1), Died SIGPIPE]"
        "stdout_bytes [?R, Write 1 bs (- 1), Died SIGPIPE] = received [?R, Write 1 bs (- 1), Died SIGPIPE]"
        by (simp_all add: obs_Cons obs_Nil relaying_def)
      ultimately show ?thesis by blast
    next
      case False
      let ?W = "Write 1 bs (write_result w (Suc (clock w)))"
      let ?w2 = "emits [?R, ?W] (w\<lparr>rx := es\<rparr>)"
      have next_round: "read_response fd w = read_response fd ?w2"
        using False by (simp add: step)
      have wr: "sys_write 1 (take (nat (int (length bs))) bs) (emit ?R (w\<lparr>rx := es\<rparr>)) =
          (Inr (write_result w (Suc (clock w))), ?w2)"
        using False by (simp add: sys_write_eq emits_update emits_emits)
      note ih = "1.IH" [OF data(5) [symmetric] refl _ wr [symmetric] refl]
      have pos: "0 < int (length bs)" using ne by simp
      from ih [OF pos] show ?thesis
      proof (elim disjE exE conjE)
        fix evs es'
        assume eq: "read_response fd ?w2 = (Inr (), emits evs (?w2\<lparr>rx := es'\<rparr>))"
          and ret: "relay_returned fd ?w2 evs"
        have "read_response fd w = (Inr (), emits ([?R, ?W] @ evs) (w\<lparr>rx := es'\<rparr>))"
          unfolding next_round eq by (simp add: emits_update emits_emits)
        moreover have "relay_returned fd w ([?R, ?W] @ evs)"
          using ret data(3,4)
          by (simp add: relay_returned_def obs_Cons obs_Nil obs_append relaying_def)
        ultimately show ?thesis by blast
      next
        fix evs es'
        assume eq: "read_response fd ?w2 = (Inl SIGPIPE, emits evs (?w2\<lparr>rx := es'\<rparr>))"
          and quiet: "printf_args evs = []" "list_all relaying evs" "stdout_bytes evs = received evs"
        have "read_response fd w = (Inl SIGPIPE, emits ([?R, ?W] @ evs) (w\<lparr>rx := es'\<rparr>))"
          unfolding next_round eq by (simp add: emits_update emits_emits)
        moreover have "printf_args ([?R, ?W] @ evs) = []" "list_all relaying ([?R, ?W] @ evs)"
          "stdout_bytes ([?R, ?W] @ evs) = received ([?R, ?W] @ evs)"
          using quiet by (simp_all add: obs_Cons obs_Nil obs_append relaying_def)
        ultimately show ?thesis by blast
      qed
    qed
  qed
qed

lemma read_response_cases:
  obtains
    (returned) evs es where
      "read_response fd w = (Inr (), emits evs (w\<lparr>rx := es\<rparr>))"
      "received evs = rx_data (rx w)" "stdout_bytes evs = rx_data (rx w)"
      "printf_args evs = []" "list_all relaying evs"
      "\<And>fd'. fd' \<noteq> 1 \<Longrightarrow> sent fd' evs = []"
      "evs \<noteq> []" "last evs = Read fd 1024 (if RxError \<in> set (rx w) then - 1 else 0) []"
  | (killed) evs es where
      "read_response fd w = (Inl SIGPIPE, emits evs (w\<lparr>rx := es\<rparr>))"
      "printf_args evs = []" "list_all relaying evs" "stdout_bytes evs = received evs"
  using read_response_shape [of fd w] by blast

lemma ready_at_emit [simp]: "ready_at (emit e w) t = ready_at w t"
  by (simp add: ready_at_def)

lemma poll_events_emit [simp]: "poll_events pid (emit e w) c n = poll_events pid w c n"
  by (induction n arbitrary: c) simp_all

lemma attach_poll_step:
  "attach_poll pid retry w =
     (if ready_at w (Suc (clock w)) then (1, emits (poll_events pid w (clock w) 1) w)
      else if retry + 1 < 10
        then attach_poll pid (retry + 1) (emits (poll_events pid w (clock w) 1) w)
        else (0, emits (poll_events pid w (clock w) 1) w))"
  by (simp add: attach_poll.simps [of pid retry w] check_socket_eq sys_sleep_def ready_at_def
      emits_def emit_def clock_def)

lemma ready_at_emits [simp]: "ready_at (emits evs w) t = ready_at w t"
  by (simp add: ready_at_def)

lemma poll_events_emits [simp]: "poll_events pid (emits evs w) c n = poll_events pid w c n"
  by (induction n arbitrary: c) simp_all

lemma attach_poll_found:
  "(\<forall>k<n. \<not> ready_at w (clock w + 2 * k + 1)) \<Longrightarrow> ready_at w (clock w + 2 * n + 1) \<Longrightarrow>
   retry + int n < 10 \<Longrightarrow>
   attach_poll pid retry w = (1, emits (poll_events pid w (clock w) (Suc n)) w)"
proof (induction n arbitrary: retry w)
  case 0
  then show ?case by (simp add: attach_poll_step)
next
  case (Suc n)
  let ?w = "emits (poll_events pid w (clock w) 1) w"
  have first: "\<not> ready_at w (Suc (clock w))" using Suc.prems(1) by force
  have later: "\<forall>k<n. \<not> ready_at ?w (clock ?w + 2 * k + 1)"
    using Suc.prems(1) by (auto dest: spec [of _ "Suc k" for k])
  have hit: "ready_at ?w (clock ?w + 2 * n + 1)" using Suc.prems(2) by simp
  have "attach_poll pid retry w = attach_poll pid (retry + 1) ?w"
    using first Suc.prems(3) by (simp add: attach_poll_step [of pid retry w])
  also have "\<dots> = (1, emits (poll_events pid ?w (clock ?w) (Suc n)) ?w)"
    using Suc.IH [OF later hit] Suc.prems(3) by simp
  finally show ?case by (simp add: emits_emits)
qed

lemma attach_poll_timeout:
  "(\<forall>k<n. \<not> ready_at w (clock w + 2 * k + 1)) \<Longrightarrow> 0 < n \<Longrightarrow> retry + int n = 10 \<Longrightarrow>
   attach_poll pid retry w = (0, emits (poll_events pid w (clock w) n) w)"
proof (induction n arbitrary: retry w)
  case 0
  then show ?case by simp
next
  case (Suc n)
  let ?w = "emits (poll_events pid w (clock w) 1) w"
  have first: "\<not> ready_at w (Suc (clock w))" using Suc.prems(1) by force
  show ?case
  proof (cases "n = 0")
    case True
    then show ?thesis using first Suc.prems(3) by (simp add: attach_poll_step [of pid 9 w])
  next
    case False
    have later: "\<forall>k<n. \<not> ready_at ?w (clock ?w + 2 * k + 1)"
      using Suc.prems(1) by (auto dest: spec [of _ "Suc k" for k])
    have "attach_poll pid retry w = attach_poll pid (retry + 1) ?w"
      using first Suc.prems(3) False by (simp add: attach_poll_step [of pid retry w])
    also have "\<dots> = (0, emits (poll_events pid ?w (clock ?w) n) ?w)"
      using Suc.IH [OF later] False Suc.prems(3) by simp
    finally show ?thesis by (simp add: emits_emits)
  qed
qed

lemma attach_poll_shape:
  obtains n where "1 \<le> n" "n \<le> 10"
    "attach_poll pid 0 w =
       (if ready_at w (clock w + 2 * n - 1) then 1 else 0, emits (poll_events pid w (clock w) n) w)"
    "\<not> ready_at w (clock w + 2 * n - 1) \<longrightarrow> n = 10"
    "\<forall>k. 1 \<le> k \<and> k < n \<longrightarrow> \<not> ready_at w (clock w + 2 * k - 1)"
proof (cases "\<exists>k<10. ready_at w (clock w + 2 * k + 1)")
  case True
  define m where "m = (LEAST k. ready_at w (clock w + 2 * k + 1))"
  from True obtain k where k: "k < 10" "ready_at w (clock w + 2 * k + 1)" by blast
  have hit: "ready_at w (clock w + 2 * m + 1)"
    unfolding m_def using k(2) by (rule LeastI)
  have "m \<le> k" unfolding m_def using k(2) by (rule Least_le)
  with k(1) have m10: "m < 10" by simp
  have before: "\<forall>j<m. \<not> ready_at w (clock w + 2 * j + 1)"
    unfolding m_def using not_less_Least by blast
  have "attach_poll pid 0 w = (1, emits (poll_events pid w (clock w) (Suc m)) w)"
    using attach_poll_found [OF before hit, of 0 pid] m10 by simp
  moreover have "\<forall>j. 1 \<le> j \<and> j < Suc m \<longrightarrow> \<not> ready_at w (clock w + 2 * j - 1)"
  proof (intro allI impI)
    fix j assume j: "1 \<le> j \<and> j < Suc m"
    then have "j - 1 < m" by arith
    with before have "\<not> ready_at w (clock w + 2 * (j - 1) + 1)" by blast
    moreover have "clock w + 2 * (j - 1) + 1 = clock w + 2 * j - 1" using j by arith
    ultimately show "\<not> ready_at w (clock w + 2 * j - 1)" by simp
  qed
  ultimately show ?thesis using that [of "Suc m"] hit m10 by simp
next
  case False
  then have never: "\<forall>k<10. \<not> ready_at w (clock w + 2 * k + 1)" by blast
  have "attach_poll pid 0 w = (0, emits (poll_events pid w (clock w) 10) w)"
    using attach_poll_timeout [OF never, of 0 pid] by simp
  moreover have "\<forall>j. 1 \<le> j \<and> j < 10 \<longrightarrow> \<not> ready_at w (clock w + 2 * j - 1)"
  proof (intro allI impI)
    fix j :: nat assume j: "1 \<le> j \<and> j < 10"
    then have "j - 1 < 10" by arith
    with never have "\<not> ready_at w (clock w + 2 * (j - 1) + 1)" by blast
    moreover have "clock w + 2 * (j - 1) + 1 = clock w + 2 * j - 1" using j by arith
    ultimately show "\<not> ready_at w (clock w + 2 * j - 1)" by simp
  qed
  moreover have "\<not> ready_at w (clock w + 2 * 10 - 1)" using never by (auto dest: spec [of _ 9])
  ultimately show ?thesis using that [of 10] by simp
qed

lemma length_polls_poll_events [simp]: "length (polls (poll_events pid w c n)) = n"
  by (induction n arbitrary: c) (simp_all add: polls_def)

lemma poll_events_quiet:
  assumes "\<And>n. f (Sleep n) = []" and "\<And>p r m. f (Stat p r m) = []"
  shows "concat (map f (poll_events pid w c n)) = []"
  by (induction n arbitrary: c) (simp_all add: assms)


lemma polls_until_emits [simp]: "polls_until (emits evs w) c b = polls_until w c b"
  by (induction b arbitrary: c) simp_all

lemma polls_until_bounds: "0 < b \<Longrightarrow> 1 \<le> polls_until w c b \<and> polls_until w c b \<le> b"
  by (induction b arbitrary: c) auto

lemma polls_until_last:
  "0 < b \<Longrightarrow> \<not> ready_at w (c + 2 * polls_until w c b - 1) \<Longrightarrow> polls_until w c b = b"
proof (induction b arbitrary: c)
  case 0
  then show ?case by simp
next
  case (Suc b)
  show ?case
  proof (cases "ready_at w (Suc c) \<or> b = 0")
    case True
    then show ?thesis using Suc.prems by auto
  next
    case False
    have "Suc (Suc c) + 2 * polls_until w (Suc (Suc c)) b - 1
          = c + 2 * Suc (polls_until w (Suc (Suc c)) b) - 1" by simp
    then show ?thesis using False Suc.prems Suc.IH [of "Suc (Suc c)"] by simp
  qed
qed

lemma attach_poll_eq:
  "nat (10 - retry) = b \<Longrightarrow> 0 < b \<Longrightarrow>
   attach_poll pid retry w =
     (if ready_at w (clock w + 2 * polls_until w (clock w) b - 1) then 1 else 0,
      emits (poll_events pid w (clock w) (polls_until w (clock w) b)) w)"
proof (induction b arbitrary: retry w)
  case 0
  then show ?case by simp
next
  case (Suc b)
  let ?w = "emits (poll_events pid w (clock w) 1) w"
  show ?case
  proof (cases "ready_at w (Suc (clock w))")
    case True
    then show ?thesis by (simp add: attach_poll_step [of pid retry w])
  next
    case miss: False
    show ?thesis
    proof (cases "b = 0")
      case True
      then have "\<not> retry + 1 < 10" using Suc.prems by simp
      then show ?thesis using miss True by (simp add: attach_poll_step [of pid retry w])
    next
      case False
      then have lt: "retry + 1 < 10" and b: "nat (10 - (retry + 1)) = b" "0 < b"
        using Suc.prems by simp_all
      have step: "Suc (Suc (clock w)) + 2 * polls_until w (Suc (Suc (clock w))) b - 1
          = clock w + 2 * Suc (polls_until w (Suc (Suc (clock w))) b) - 1" by simp
      have "attach_poll pid retry w = attach_poll pid (retry + 1) ?w"
        using miss lt by (simp add: attach_poll_step [of pid retry w])
      also note Suc.IH [OF b, of ?w]
      finally show ?thesis using miss False step by (simp add: emits_emits)
    qed
  qed
qed

lemma polls_until_cong:
  "(\<And>t. c < t \<Longrightarrow> ready_at v t = ready_at w t) \<Longrightarrow> polls_until v c b = polls_until w c b"
  by (induction b arbitrary: c) simp_all

lemma poll_events_cong:
  "(\<And>t. c < t \<Longrightarrow> ret v t = ret w t \<and> st_mode_at v t = st_mode_at w t) \<Longrightarrow>
     poll_events pid v c n = poll_events pid w c n"
  by (induction n arbitrary: c) simp_all


lemma length_poll_events [simp]: "length (poll_events pid w c n) = 2 * n"
  by (induction n arbitrary: c) simp_all

lemma kill_is_fatal_emits [simp]:
  "kill_is_fatal (emits evs w) pid sg = kill_is_fatal w pid sg"
  "kill_is_fatal (emit e w) pid sg = kill_is_fatal w pid sg"
  by (simp_all add: kill_is_fatal_def hits_caller_def)

lemma sys_kill_eq:
  "sys_kill pid sg w =
     (if kill_is_fatal w pid sg
      then (Inl sg, emits [Kill pid sg (ret w (clock w)), Died sg] w)
      else (Inr (ret w (clock w)), emits [Kill pid sg (ret w (clock w))] w))"
  by (simp add: sys_kill_def Let_def emits_def emit_def)

lemma start_attach_mechanism_refused:
  assumes "ret w (clock w) = - 1" and "ret w (Suc (clock w)) = - 1"
  shows "start_attach_mechanism pid w =
     (Inr 0, emits [Creat (marker_primary pid) 432 (- 1), Creat (marker_fallback pid) 432 (- 1)] w)"
  using assms
  by (simp add: start_attach_mechanism_def sys_creat_def Let_def split_beta emits_def emit_def
      clock_def)

lemma start_attach_mechanism_created:
  assumes "ret w (clock w) \<noteq> - 1 \<or> ret w (Suc (clock w)) \<noteq> - 1"
  shows "start_attach_mechanism pid w =
     (if kill_is_fatal w pid SIGQUIT
      then (Inl SIGQUIT, emits (marker_events pid w @ [Died SIGQUIT]) w)
      else (let w3 = emits (marker_events pid w) w
            in (Inr (fst (attach_poll pid 0 w3)),
                emit (Unlink (marker_path pid w) (ret w (clock (snd (attach_poll pid 0 w3)))))
                  (snd (attach_poll pid 0 w3)))))"
proof (cases "ret w (clock w) \<noteq> - 1")
  case True
  then show ?thesis
    by (simp add: start_attach_mechanism_def sys_creat_def sys_close_def sys_kill_eq
        sys_unlink_def Let_def split_beta emits_update emits_emits marker_events_def
        marker_path_def numeral_2_eq_2 attach_poll_eq [of 0 10])
next
  case False
  then show ?thesis using assms
    by (simp add: start_attach_mechanism_def sys_creat_def sys_close_def sys_kill_eq
        sys_unlink_def Let_def split_beta emits_update emits_emits marker_events_def
        marker_path_def numeral_3_eq_3 attach_poll_eq [of 0 10])
qed

lemma start_attach_mechanism_started:
  assumes "ret w (clock w) \<noteq> - 1 \<or> ret w (Suc (clock w)) \<noteq> - 1"
  shows "start_attach_mechanism pid w =
     (if kill_is_fatal w pid SIGQUIT
      then (Inl SIGQUIT, emits (marker_events pid w @ [Died SIGQUIT]) w)
      else (let c = clock w + length (marker_events pid w); n = polls_until w c 10
            in (Inr (if ready_at w (c + 2 * n - 1) then 1 else 0),
                emits (marker_events pid w @ poll_events pid w c n
                         @ [Unlink (marker_path pid w) (ret w (c + 2 * n))]) w)))"
  by (simp add: start_attach_mechanism_created [OF assms] attach_poll_eq [of 0 10] Let_def
      emits_update emits_emits add.assoc)

lemma obs_marker_events:
  "created (marker_events pid w) =
     (if ret w (clock w) = - 1 \<and> ret w (Suc (clock w)) = - 1 then [] else [marker_path pid w])"
  "unlinked (marker_events pid w) = []"
  "polls (marker_events pid w) = []"
  "kills (marker_events pid w) =
     [(pid, SIGQUIT, ret w (clock w + (if ret w (clock w) \<noteq> - 1 then 2 else 3)))]"
  by (simp_all add: marker_events_def marker_path_def created_def unlinked_def polls_def kills_def)

lemma obs_poll_events:
  "created (poll_events pid w c n) = []"
  "unlinked (poll_events pid w c n) = []"
  "kills (poll_events pid w c n) = []"
  by (simp_all add: created_def unlinked_def kills_def poll_events_quiet)

lemma activating_poll_events: "list_all activating (poll_events pid w c n)"
  by (induction n arbitrary: c) (simp_all add: activating_def)

lemma activating_marker_events: "list_all activating (marker_events pid w)"
  by (simp add: marker_events_def activating_def)

lemma start_attach_mechanism_since:
  "snd (start_attach_mechanism pid w) = emits (since w (snd (start_attach_mechanism pid w))) w"
  "list_all activating (since w (snd (start_attach_mechanism pid w)))"
  "fst (start_attach_mechanism pid w) = Inl sg \<Longrightarrow> sg = SIGQUIT"
proof -
  show "snd (start_attach_mechanism pid w) = emits (since w (snd (start_attach_mechanism pid w))) w"
  proof (cases "ret w (clock w) \<noteq> - 1 \<or> ret w (Suc (clock w)) \<noteq> - 1")
    case True
    then show ?thesis by (simp add: start_attach_mechanism_started Let_def)
  next
    case False
    then show ?thesis by (simp add: start_attach_mechanism_refused)
  qed
  show "list_all activating (since w (snd (start_attach_mechanism pid w)))"
  proof (cases "ret w (clock w) \<noteq> - 1 \<or> ret w (Suc (clock w)) \<noteq> - 1")
    case True
    then show ?thesis
      by (simp add: start_attach_mechanism_started Let_def activating_poll_events
          activating_marker_events) (simp add: activating_def)
  next
    case False
    then show ?thesis by (simp add: start_attach_mechanism_refused activating_def)
  qed
  show "fst (start_attach_mechanism pid w) = Inl sg \<Longrightarrow> sg = SIGQUIT"
  proof (cases "ret w (clock w) \<noteq> - 1 \<or> ret w (Suc (clock w)) \<noteq> - 1")
    case True
    then show "fst (start_attach_mechanism pid w) = Inl sg \<Longrightarrow> sg = SIGQUIT"
      by (simp add: start_attach_mechanism_started Let_def split: if_splits)
  next
    case False
    then show "fst (start_attach_mechanism pid w) = Inl sg \<Longrightarrow> sg = SIGQUIT"
      by (simp add: start_attach_mechanism_refused)
  qed
qed

lemma start_attach_mechanism_kill_result:
  fixes w :: world and r :: int
  assumes made: "ret w (clock w) \<noteq> - 1 \<or> ret w (Suc (clock w)) \<noteq> - 1"
    and alive: "\<not> kill_is_fatal w pid SIGQUIT"
  defines "v \<equiv> w\<lparr>ret := (ret w)(kill_step w := r)\<rparr>"
  shows "fst (start_attach_mechanism pid v) = fst (start_attach_mechanism pid w)"
    and "since v (snd (start_attach_mechanism pid v)) =
           (since w (snd (start_attach_mechanism pid w)))[kill_step w - clock w := Kill pid SIGQUIT r]"
proof -
  have clk: "clock v = clock w" by (simp add: v_def clock_def)
  have alive': "\<not> kill_is_fatal v pid SIGQUIT"
    using alive by (simp add: v_def kill_is_fatal_def hits_caller_def)
  have early: "ret v t = ret w t" if "t < kill_step w" for t using that by (simp add: v_def)
  have late: "ret v t = ret w t" if "kill_step w < t" for t using that by (simp add: v_def)
  have mode: "st_mode_at v = st_mode_at w" by (simp add: v_def)
  have r0: "ret v (clock w) = ret w (clock w)" by (rule early) (simp add: kill_step_def)
  have r1: "ret v (Suc (clock w)) = ret w (Suc (clock w))" by (rule early) (simp add: kill_step_def)
  have made': "ret v (clock v) \<noteq> - 1 \<or> ret v (Suc (clock v)) \<noteq> - 1"
    using made by (simp add: clk r0 r1)
  have len: "length (marker_events pid v) = length (marker_events pid w)"
    "clock w + length (marker_events pid w) = Suc (kill_step w)"
    by (simp_all add: marker_events_def clk r0 kill_step_def)
  have ready: "ready_at v t = ready_at w t" if "Suc (kill_step w) < t" for t
    using that late [of t] by (simp add: ready_at_def mode)
  have n: "polls_until v (Suc (kill_step w)) 10 = polls_until w (Suc (kill_step w)) 10"
    by (rule polls_until_cong) (rule ready)
  have ev: "poll_events pid v (Suc (kill_step w)) m = poll_events pid w (Suc (kill_step w)) m" for m
    by (rule poll_events_cong) (simp add: late mode)
  have "1 \<le> polls_until w (Suc (kill_step w)) 10"
    using polls_until_bounds [of 10 w "Suc (kill_step w)"] by simp
  then have last_step: "kill_step w < Suc (kill_step w) + 2 * polls_until w (Suc (kill_step w)) 10 - 1"
    by arith
  have un: "ret v (Suc (kill_step w) + 2 * m) = ret w (Suc (kill_step w) + 2 * m)" for m
    by (rule late) simp
  have kv: "ret v (kill_step w) = r" by (simp add: v_def)
  have me: "marker_events pid v = (marker_events pid w)[kill_step w - clock w := Kill pid SIGQUIT r]"
    using kv by (cases "ret w (clock w) = - 1")
      (simp_all add: marker_events_def clk r0 r1 kill_step_def numeral_2_eq_2 numeral_3_eq_3)
  have idx: "kill_step w - clock w < length (marker_events pid w)"
    by (simp add: marker_events_def kill_step_def)
  have path: "marker_path pid v = marker_path pid w" by (simp add: marker_path_def clk r0)
  show "fst (start_attach_mechanism pid v) = fst (start_attach_mechanism pid w)"
    using last_step alive alive'
    by (simp add: start_attach_mechanism_started [OF made] start_attach_mechanism_started [OF made']
        Let_def clk len n ready)
  show "since v (snd (start_attach_mechanism pid v)) =
          (since w (snd (start_attach_mechanism pid w)))[kill_step w - clock w := Kill pid SIGQUIT r]"
    using idx alive alive' un
    by (simp add: start_attach_mechanism_started [OF made] start_attach_mechanism_started [OF made']
        Let_def clk len n ev me path list_update_append)
qed

lemma connect_socket_eq:
  "connect_socket pid w =
     (if ret w (clock w) = - 1 then (- 1, emits [Socket (- 1)] w)
      else if ret w (Suc (clock w)) = - 1
        then (- 1, emits [Socket (ret w (clock w)),
                          Connect (ret w (clock w)) (channel_path pid) (- 1),
                          Close (ret w (clock w))] w)
        else (ret w (clock w),
              emits [Socket (ret w (clock w)),
                     Connect (ret w (clock w)) (channel_path pid) (ret w (Suc (clock w)))] w))"
  by (simp add: connect_socket_def sys_socket_def sys_connect_def sys_close_def Let_def emits_def
      emit_def clock_def)

lemma activating_activation: "list_all activating (activation pid w)"
  by (simp add: activation_def Let_def start_attach_mechanism_since(2))

text \<open>A diagnostic line and the exit that follows it.\<close>

lemma diagnostic_cases:
  assumes "s \<noteq> []" and "last s = newline"
  obtains
    (returned) T where
      "then_do (printf s w) (\<lambda>u. c_exit status) = (Inr status, emits T (w\<lparr>stdio := []\<rparr>))"
      "printf_args T = [s]" "received T = []" "list_all relaying T"
      "\<And>fd. fd \<noteq> 1 \<Longrightarrow> sent fd T = []"
      "stdout_bytes T = stdio w @ s"
  | (killed) T bs where
      "then_do (printf s w) (\<lambda>u. c_exit status) = (Inl SIGPIPE, emits T (w\<lparr>stdio := bs\<rparr>))"
      "printf_args T = [s]" "list_all relaying T"
proof -
  from assms show ?thesis
  proof (cases rule: printf_cases [where w = w and s = s])
    case (killed evs bs)
    show ?thesis
      by (rule that(2) [of evs bs]) (simp_all add: killed)
  next
    case p: (returned evs bs)
    let ?w1 = "emits evs (w\<lparr>stdio := bs\<rparr>)"
    show ?thesis
    proof (cases rule: c_exit_cases [of status ?w1])
      case (killed evs')
      show ?thesis
        by (rule that(2) [of "evs @ evs'" "[]"])
          (simp_all add: p killed emits_update emits_emits obs_append)
    next
      case (returned evs')
      have out: "stdout_bytes evs @ bs = stdio w @ s"
        using p(6,7) by (cases "stdout_mode w = FullyBuffered") simp_all
      show ?thesis
        by (rule that(1) [of "evs @ evs'"])
          (simp_all add: p returned emits_update emits_emits obs_append out)
    qed
  qed
qed

lemma update_order: "w\<lparr>stdio := bs, rx := es\<rparr> = w\<lparr>rx := es, stdio := bs\<rparr>"
  by (cases w) simp

lemma banner_line:

  "''Connected to remove JVM\<newline>'' \<noteq> []" "last ''Connected to remove JVM\<newline>'' = newline"
  "''\<newline>'' \<noteq> []" "last ''\<newline>'' = newline"
  by (simp_all add: newline_def)

lemma session_cases:
  obtains
    (completed) E es where
      "session fd argc args v = (Inr 0, emits E (v\<lparr>rx := es, stdio := []\<rparr>))"
      "printf_args E = [''Connected to remove JVM\<newline>'', ''\<newline>'']"
      "received E = rx_data (rx v)"
      "list_all relaying E"
      "fd \<noteq> 1 \<Longrightarrow> sent fd E =
        [''1'' @ [NUL],
         (if 0 < argc then args ! 0 else '''') @ [NUL],
         (if 1 < argc then args ! 1 else '''') @ [NUL],
         (if 2 < argc then args ! 2 else '''') @ [NUL],
         (if 3 < argc then args ! 3 else '''') @ [NUL]]"
      "fd \<noteq> 1 \<Longrightarrow> stdout_bytes E =
        (if stdout_mode v = FullyBuffered
         then rx_data (rx v) @ stdio v @ ''Connected to remove JVM\<newline>'' @ ''\<newline>''
         else stdio v @ ''Connected to remove JVM\<newline>'' @ rx_data (rx v) @ ''\<newline>'')"
  | (killed) E es bs where
      "session fd argc args v = (Inl SIGPIPE, emits E (v\<lparr>rx := es, stdio := bs\<rparr>))"
      "list_all relaying E"
      "printf_args E = [''Connected to remove JVM\<newline>''] \<or>
       printf_args E = [''Connected to remove JVM\<newline>'', ''\<newline>'']"
proof -
  let ?banner = "''Connected to remove JVM\<newline>''"
  let ?nl = "''\<newline>''"
  have same: "v\<lparr>rx := rx v\<rparr> = v" by simp
  from banner_line(1,2) show ?thesis
  proof (cases rule: printf_cases [where w = v and s = ?banner])
    case k: (killed e1 b1)
    have "session fd argc args v = (Inl SIGPIPE, emits e1 (v\<lparr>rx := rx v, stdio := b1\<rparr>))"
      by (simp add: session_def k(1))
    then show ?thesis using k(2,3) killed by blast
  next
    case p: (returned e1 b1)
    let ?v1 = "emits e1 (v\<lparr>stdio := b1\<rparr>)"
    show ?thesis
    proof (cases rule: write_command_cases [of fd argc args ?v1])
      case k: (killed e2)
      have "session fd argc args v = (Inl SIGPIPE, emits (e1 @ e2) (v\<lparr>rx := rx v, stdio := b1\<rparr>))"
        by (simp add: session_def p(1) k(1) emits_emits)
      moreover have "list_all relaying (e1 @ e2)" using p(4) k(3) by simp
      moreover have "printf_args (e1 @ e2) = [?banner]" using p(2) k(2) by (simp add: obs_append)
      ultimately show ?thesis using killed by blast
    next
      case c: (returned e2)
      let ?v2 = "emits (e1 @ e2) (v\<lparr>stdio := b1\<rparr>)"
      have s2: "session fd argc args v =
          then_do (read_response fd ?v2) (\<lambda>u w6.
            then_do (printf ?nl (sys_close fd w6)) (\<lambda>u. c_exit 0))"
        by (simp add: session_def p(1) c(1) emits_emits)
      show ?thesis
      proof (cases rule: read_response_cases [of fd ?v2])
        case k: (killed e3 es)
        have "session fd argc args v =
            (Inl SIGPIPE, emits (e1 @ e2 @ e3) (v\<lparr>rx := es, stdio := b1\<rparr>))"
          by (simp add: s2 k(1) emits_emits emits_update update_order)
        moreover have "list_all relaying (e1 @ e2 @ e3)" using p(4) c(6) k(3) by simp
        moreover have "printf_args (e1 @ e2 @ e3) = [?banner]"
          using p(2) c(4) k(2) by (simp add: obs_append)
        ultimately show ?thesis using killed by blast
      next
        case r: (returned e3 es)
        define P where "P = e1 @ e2 @ e3 @ [Close fd]"
        let ?v3 = "emits P (v\<lparr>rx := es, stdio := b1\<rparr>)"
        have s3: "session fd argc args v = then_do (printf ?nl ?v3) (\<lambda>u. c_exit 0)"
          by (simp add: s2 r(1) sys_close_def emits_emits emits_update update_order P_def)
        have rel3: "list_all relaying P"
          using p(4) c(6) r(5) by (simp add: relaying_def P_def)
        have pr3: "printf_args P = [?banner]"
          using p(2) c(4) r(4) by (simp add: obs_append obs_Cons obs_Nil P_def)
        have rc3: "received P = rx_data (rx v)"
          using p(3) c(5) r(2) by (simp add: obs_append obs_Cons obs_Nil P_def)
        have sn3: "sent fd P =
           [''1'' @ [NUL],
            (if 0 < argc then args ! 0 else '''') @ [NUL],
            (if 1 < argc then args ! 1 else '''') @ [NUL],
            (if 2 < argc then args ! 2 else '''') @ [NUL],
            (if 3 < argc then args ! 3 else '''') @ [NUL]]" if "fd \<noteq> 1"
          using p(5) [OF that] c(2) r(6) [OF that]
          by (simp add: obs_append obs_Cons obs_Nil P_def)
        have out3: "stdout_bytes P @ b1 =
            (if stdout_mode v = FullyBuffered
             then rx_data (rx v) @ stdio v @ ?banner else stdio v @ ?banner @ rx_data (rx v))"
          if "fd \<noteq> 1"
        proof -
          have "stdout_bytes e2 = []"
            using c(7) [of 1] that by (simp add: stdout_bytes_def)
          moreover have "stdout_bytes e3 = rx_data (rx v)" using r(3) by simp
          ultimately have "stdout_bytes P = stdout_bytes e1 @ rx_data (rx v)"
            by (simp add: obs_append obs_Cons obs_Nil P_def)
          then show ?thesis
            using p(6,7) by (cases "stdout_mode v = FullyBuffered") simp_all
        qed
        from banner_line(3,4) show ?thesis
        proof (cases rule: diagnostic_cases [where w = ?v3 and s = ?nl and status = 0])
          case k: (killed T bs)
          have "session fd argc args v = (Inl SIGPIPE, emits (P @ T) (v\<lparr>rx := es, stdio := bs\<rparr>))"
            by (simp add: s3 k(1) emits_emits emits_update)
          moreover have "list_all relaying (P @ T)"
            using rel3 k(3) by simp
          moreover have "printf_args (P @ T) = [?banner, ?nl]"
            using pr3 k(2) by (simp add: obs_append)
          ultimately show ?thesis using killed by blast
        next
          case d: (returned T)
          have eq: "session fd argc args v = (Inr 0, emits (P @ T) (v\<lparr>rx := es, stdio := []\<rparr>))"
            by (simp add: s3 d(1) emits_emits emits_update)
          have rel: "list_all relaying (P @ T)" using rel3 d(4) by simp
          have pr: "printf_args (P @ T) = [?banner, ?nl]" using pr3 d(2) by (simp add: obs_append)
          have rc: "received (P @ T) = rx_data (rx v)" using rc3 d(3) by (simp add: obs_append)
          have sn: "sent fd (P @ T) =
             [''1'' @ [NUL],
              (if 0 < argc then args ! 0 else '''') @ [NUL],
              (if 1 < argc then args ! 1 else '''') @ [NUL],
              (if 2 < argc then args ! 2 else '''') @ [NUL],
              (if 3 < argc then args ! 3 else '''') @ [NUL]]" if "fd \<noteq> 1"
            using sn3 [OF that] d(5) [OF that] by (simp add: obs_append)
          have out: "stdout_bytes (P @ T) =
              (if stdout_mode v = FullyBuffered
               then rx_data (rx v) @ stdio v @ ?banner @ ?nl
               else stdio v @ ?banner @ rx_data (rx v) @ ?nl)" if "fd \<noteq> 1"
          proof -
            have "stdout_bytes (P @ T) = (stdout_bytes P @ b1) @ ?nl"
              using d(6) by (simp add: obs_append)
            then show ?thesis unfolding out3 [OF that] by simp
          qed
          show ?thesis by (rule completed [OF eq pr rc rel sn out])
        qed
      qed
    qed
  qed
qed

lemma diag_lines:
  "''Could not start attach mechanism\<newline>'' \<noteq> []"
  "last ''Could not start attach mechanism\<newline>'' = newline"
  "''Could not connect to socket\<newline>'' \<noteq> []"
  "last ''Could not connect to socket\<newline>'' = newline"
  by (simp_all add: newline_def)

lemma main_unfold:
  assumes "3 \<le> length argv"
  shows "main argv w =
     (let pid = atoi (argv ! 1);
          w1 = emit (Stat (channel_path pid) (ret w (clock w)) (st_mode_at w (clock w))) w;
          rest = (\<lambda>w2. if fst (connect_socket pid w2) = - 1
                   then then_do (printf ''Could not connect to socket\<newline>'' (snd (connect_socket pid w2)))
                          (\<lambda>u. c_exit 1)
                   else session (fst (connect_socket pid w2)) (int (length argv) - 2) (drop 2 argv)
                          (snd (connect_socket pid w2)))
      in if ready_at w (clock w) then rest w1
         else then_do (start_attach_mechanism pid w1)
                (\<lambda>started w2.
                   if started = 0
                   then then_do (printf ''Could not start attach mechanism\<newline>'' w2) (\<lambda>u. c_exit 1)
                   else rest w2))"
  using assms
  by (cases "start_attach_mechanism (atoi (argv ! 1))
        (emit (Stat (channel_path (atoi (argv ! 1))) (ret w (clock w)) (st_mode_at w (clock w))) w)";
      cases "fst (start_attach_mechanism (atoi (argv ! 1))
        (emit (Stat (channel_path (atoi (argv ! 1))) (ret w (clock w)) (st_mode_at w (clock w))) w))")
    (simp_all add: main_def check_socket_eq ready_at_def session_def Let_def split_beta)

lemma main_cases:
  assumes "3 \<le> length argv"
  obtains
    (own_signal)
      "fst (main argv w) = Inl SIGQUIT"
      "\<not> ready_at w (clock w)"
      "since w (snd (main argv w)) =
         Stat (channel_path (atoi (argv ! 1))) (ret w (clock w)) (st_mode_at w (clock w))
           # activation (atoi (argv ! 1)) w"
  | (not_started) T where
      "fst (main argv w) = Inr 1 \<or> fst (main argv w) = Inl SIGPIPE"
      "\<not> ready_at w (clock w)"
      "printf_args T = [''Could not start attach mechanism\<newline>'']" "list_all relaying T"
      "since w (snd (main argv w)) =
         Stat (channel_path (atoi (argv ! 1))) (ret w (clock w)) (st_mode_at w (clock w))
           # activation (atoi (argv ! 1)) w @ T"
  | (not_connected) C T where
      "fst (main argv w) = Inr 1 \<or> fst (main argv w) = Inl SIGPIPE"
      "connected C = []" "printf_args C = []" "kills C = []" "created C = []"
      "printf_args T = [''Could not connect to socket\<newline>'']" "list_all relaying T"
      "since w (snd (main argv w)) =
         Stat (channel_path (atoi (argv ! 1))) (ret w (clock w)) (st_mode_at w (clock w))
           # activation (atoi (argv ! 1)) w @ C @ T"
  | (connected) fd r v where
      "fd \<noteq> - 1" "r \<noteq> - 1"
      "v = emits (Stat (channel_path (atoi (argv ! 1))) (ret w (clock w)) (st_mode_at w (clock w))
                   # activation (atoi (argv ! 1)) w
                   @ [Socket fd, Connect fd (channel_path (atoi (argv ! 1))) r]) w"
      "main argv w = session fd (int (length argv) - 2) (drop 2 argv) v"
proof -
  define pid where "pid = atoi (argv ! 1)"
  define s where "s = Stat (channel_path pid) (ret w (clock w)) (st_mode_at w (clock w))"
  define w1 where "w1 = emit s w"
  define A where "A = activation pid w"
  define rest where "rest = (\<lambda>w2. if fst (connect_socket pid w2) = - 1
                   then then_do (printf ''Could not connect to socket\<newline>'' (snd (connect_socket pid w2)))
                          (\<lambda>u. c_exit 1)
                   else session (fst (connect_socket pid w2)) (int (length argv) - 2) (drop 2 argv)
                          (snd (connect_socket pid w2)))"
  have m: "main argv w =
     (if ready_at w (clock w) then rest w1
      else then_do (start_attach_mechanism pid w1)
             (\<lambda>started w2.
                if started = 0
                then then_do (printf ''Could not start attach mechanism\<newline>'' w2) (\<lambda>u. c_exit 1)
                else rest w2))"
    unfolding rest_def w1_def s_def pid_def
    by (rule main_unfold [OF assms, of w, unfolded Let_def])
  have A: "snd (start_attach_mechanism pid w1) = emits (s # A) w" if "\<not> ready_at w (clock w)"
    using that start_attach_mechanism_since(1) [of pid w1]
    by (simp add: A_def activation_def Let_def w1_def s_def emits_emit)
  have A0: "A = []" if "ready_at w (clock w)"
    using that by (simp add: A_def activation_def)
  have rest_cases: thesis if w2: "w2 = emits (s # A) w" and run: "main argv w = rest w2" for w2
  proof (cases "fst (connect_socket pid w2) = - 1")
    case True
    define C where "C = since w2 (snd (connect_socket pid w2))"
    have c: "snd (connect_socket pid w2) = emits C w2" "connected C = []" "printf_args C = []"
      "kills C = []" "created C = []"
      using True by (auto simp add: C_def connect_socket_eq obs_Nil obs_Cons split: if_splits)
    have "rest w2 = then_do (printf ''Could not connect to socket\<newline>'' (emits C w2)) (\<lambda>u. c_exit 1)"
      using True by (simp add: rest_def c(1))
    then have run': "main argv w =
        then_do (printf ''Could not connect to socket\<newline>'' (emits (s # A @ C) w)) (\<lambda>u. c_exit 1)"
      by (simp add: run w2 emits_emits)
    from diag_lines(3,4) show ?thesis
    proof (cases rule: diagnostic_cases [where w = "emits (s # A @ C) w"
          and s = "''Could not connect to socket\<newline>''" and status = 1])
      case (returned T)
      have o: "fst (main argv w) = Inr 1" by (simp add: run' returned(1))
      have sn: "since w (snd (main argv w)) = s # A @ C @ T"
        by (simp add: run' returned(1) emits_update emits_emits)
      show ?thesis
        using not_connected [of C T] o sn c(2-5) returned(2,4) by (simp add: pid_def s_def A_def)
    next
      case (killed T bs)
      have o: "fst (main argv w) = Inl SIGPIPE" by (simp add: run' killed(1))
      have sn: "since w (snd (main argv w)) = s # A @ C @ T"
        by (simp add: run' killed(1) emits_update emits_emits)
      show ?thesis
        using not_connected [of C T] o sn c(2-5) killed(2,3) by (simp add: pid_def s_def A_def)
    qed
  next
    case False
    define fd where "fd = ret w2 (clock w2)"
    define r where "r = ret w2 (Suc (clock w2))"
    have cs: "connect_socket pid w2 = (fd, emits [Socket fd, Connect fd (channel_path pid) r] w2)"
      and ok: "fd \<noteq> - 1" "r \<noteq> - 1"
      using False by (auto simp add: connect_socket_eq fd_def r_def split: if_splits)
    have "rest w2 = session fd (int (length argv) - 2) (drop 2 argv)
        (emits [Socket fd, Connect fd (channel_path pid) r] w2)"
      using False by (simp add: rest_def cs)
    then have "main argv w = session fd (int (length argv) - 2) (drop 2 argv)
        (emits (s # A @ [Socket fd, Connect fd (channel_path pid) r]) w)"
      by (simp add: run w2 emits_emits)
    then show ?thesis
      using connected [of fd r] ok by (simp add: pid_def s_def A_def)
  qed
  show ?thesis
  proof (cases "ready_at w (clock w)")
    case True
    show ?thesis
      by (rule rest_cases [of w1]) (simp_all add: m True A0 w1_def emit_as_emits)
  next
    case absent: False
    show ?thesis
    proof (cases "fst (start_attach_mechanism pid w1)")
      case (Inl sg)
      then have sg: "sg = SIGQUIT" by (rule start_attach_mechanism_since(3))
      have "main argv w = (Inl SIGQUIT, emits (s # A) w)"
        using absent Inl sg A [OF absent]
        by (cases "start_attach_mechanism pid w1") (simp add: m)
      then show ?thesis
        using own_signal absent by (simp add: pid_def s_def A_def)
    next
      case (Inr started)
      then have sam: "start_attach_mechanism pid w1 = (Inr started, emits (s # A) w)"
        using A [OF absent] by (cases "start_attach_mechanism pid w1") simp
      show ?thesis
      proof (cases "started = 0")
        case False
        show ?thesis
          by (rule rest_cases [of "emits (s # A) w"]) (simp_all add: m absent sam False)
      next
        case True
        have run: "main argv w =
            then_do (printf ''Could not start attach mechanism\<newline>'' (emits (s # A) w))
              (\<lambda>u. c_exit 1)"
          by (simp add: m absent sam True)
        from diag_lines(1,2) show ?thesis
        proof (cases rule: diagnostic_cases [where w = "emits (s # A) w"
              and s = "''Could not start attach mechanism\<newline>''" and status = 1])
          case (returned T)
          have o: "fst (main argv w) = Inr 1" by (simp add: run returned(1))
          have sn: "since w (snd (main argv w)) = s # A @ T"
            by (simp add: run returned(1) emits_update emits_emits)
          show ?thesis
            using not_started [of T] o sn absent returned(2,4) by (simp add: pid_def s_def A_def)
        next
          case (killed T bs)
          have o: "fst (main argv w) = Inl SIGPIPE" by (simp add: run killed(1))
          have sn: "since w (snd (main argv w)) = s # A @ T"
            by (simp add: run killed(1) emits_update emits_emits)
          show ?thesis
            using not_started [of T] o sn absent killed(2,3) by (simp add: pid_def s_def A_def)
        qed
      qed
    qed
  qed
qed


lemma dec_int_0: "dec_int 0 = ''0''"
  by (simp add: dec_int_def dec_nat.simps digit_char_def)

text \<open>
  \<^verbatim>\<open>atoi\<close> on some arguments: no digit gives 0; a number within the range of \<^verbatim>\<open>int\<close> is
  itself; a number that fits \<^verbatim>\<open>long\<close> but not \<^verbatim>\<open>int\<close> wraps around; one beyond \<^verbatim>\<open>long\<close> is
  \<^verbatim>\<open>LONG_MAX\<close>, whose low 32 bits are -1.
\<close>

lemma atoi_x: "atoi ''x'' = 0"
  by (simp add: atoi_def strtol_def isspace_def isdigit_def LONG_MIN_def LONG_MAX_def)

lemma atoi_42: "atoi ''42'' = 42"
  by (simp add: atoi_def strtol_def isspace_def isdigit_def LONG_MIN_def LONG_MAX_def)

lemma atoi_wraps: "atoi ''4294967338'' = 42"
  by (simp add: atoi_def strtol_def isspace_def isdigit_def LONG_MIN_def LONG_MAX_def)

lemma atoi_saturates: "atoi ''99999999999999999999'' = - 1"
  by (simp add: atoi_def strtol_def isspace_def isdigit_def LONG_MIN_def LONG_MAX_def)

lemmas run_simps =
  main_def atoi_42 check_socket_eq dec_int_def dec_nat.simps
  digit_char_def S_ISSOCK_def S_IFMT_def S_IFSOCK_def connect_socket_eq printf_def fflush_def
  flush_lines_def upto_last_newline_def newline_def c_exit_def
  write_command_def write_args.simps sys_write_def pipe_kills_def write_result_def
  read_response.simps sys_read_def
  sys_close_def clock_def emit_def emits_def Let_def

text \<open>
  Whole runs of \<open>main\<close> in the example worlds: with a terminal; with a pipe (the line
  and the newline leave the buffer only at exit); with failing writes and a failing
  read; with a pipe and a peer that has closed (the first \<^verbatim>\<open>write\<close> of the request is
  fatal, nothing reaches standard output and the line is lost with the buffer); and
  with a target argument that parses to 0 (the signal terminates jattach itself, and the
  marker is left behind).
\<close>

lemma main_live_run:

  "main [''jattach'', ''42'', ''threaddump''] live_channel =
   (Inr 0, live_channel\<lparr>rx := [],
      trace := [Stat ''/tmp/.java_pid42'' 0 0xC1FF, Socket 3, Connect 3 ''/tmp/.java_pid42'' 0,
        Printf ''Connected to remove JVM\<newline>'', Write 1 ''Connected to remove JVM\<newline>'' 0,
        Write 3 (''1'' @ [NUL]) 0, Write 3 (''threaddump'' @ [NUL]) 0,
        Write 3 [NUL] 0, Write 3 [NUL] 0, Write 3 [NUL] 0,
        Read 3 1024 5 ''hello'', Write 1 ''hello'' 0, Read 3 1024 3 ''wor'', Write 1 ''wor'' 0,
        Read 3 1024 0 [], Close 3, Printf ''\<newline>'', Write 1 ''\<newline>'' 0]\<rparr>)"
  by (simp add: run_simps)



lemma main_closed_peer_run:
  "main [''jattach'', ''42'', ''threaddump''] closed_peer =
   (Inl SIGPIPE, closed_peer\<lparr>
      trace := [Stat ''/tmp/.java_pid42'' 0 0xC1FF, Socket 3, Connect 3 ''/tmp/.java_pid42'' 0,
        Printf ''Connected to remove JVM\<newline>'', Write 3 (''1'' @ [NUL]) (- 1), Died SIGPIPE],
      stdio := ''Connected to remove JVM\<newline>''\<rparr>)"
  by (simp add: run_simps)

lemma main_no_channel_run:
  "main [''jattach'', ''x'', ''threaddump''] no_channel =
   (Inl SIGQUIT, no_channel\<lparr>
      trace := [Stat ''/tmp/.java_pid0'' (- 1) 0, Creat ''/proc/0/cwd/.attach_pid0'' 432 (- 1),
        Creat ''/tmp/.attach_pid0'' 432 3, Close 3, Kill 0 SIGQUIT 0, Died SIGQUIT]\<rparr>)"
  by (simp add: main_def atoi_x check_socket_eq dec_int_0 S_ISSOCK_def S_IFMT_def S_IFSOCK_def
      start_attach_mechanism_def sys_creat_def sys_close_def sys_kill_def kill_is_fatal_def
      hits_caller_def clock_def emit_def Let_def)

lemma activation_not_ready:
  assumes "\<not> ready_at w (clock w)"
  shows "\<exists>rest. activation pid w = Creat (marker_primary pid) 432 (ret w (Suc (clock w))) # rest"
    and "ret w (Suc (clock w)) \<noteq> - 1 \<or> ret w (Suc (Suc (clock w))) \<noteq> - 1 \<Longrightarrow>
      created (activation pid w) =
        [if ret w (Suc (clock w)) \<noteq> - 1 then marker_primary pid else marker_fallback pid]"
    and "ret w (Suc (clock w)) \<noteq> - 1 \<or> ret w (Suc (Suc (clock w))) \<noteq> - 1 \<Longrightarrow>
      kills (activation pid w) =
        [(pid, SIGQUIT, ret w (clock w + (if ret w (Suc (clock w)) \<noteq> - 1 then 3 else 4)))]"
proof -
  let ?w1 = "emit (Stat (channel_path pid) (ret w (clock w)) (st_mode_at w (clock w))) w"
  have a: "activation pid w = since ?w1 (snd (start_attach_mechanism pid ?w1))"
    using assms by (simp add: activation_def Let_def)
  show "\<exists>rest. activation pid w = Creat (marker_primary pid) 432 (ret w (Suc (clock w))) # rest"
  proof (cases "ret ?w1 (clock ?w1) \<noteq> - 1 \<or> ret ?w1 (Suc (clock ?w1)) \<noteq> - 1")
    case True
    then show ?thesis
      unfolding a start_attach_mechanism_started [OF True]
      by (auto simp add: Let_def marker_events_def)
  next
    case False
    then show ?thesis
      unfolding a by (simp add: start_attach_mechanism_refused)
  qed
  assume "ret w (Suc (clock w)) \<noteq> - 1 \<or> ret w (Suc (Suc (clock w))) \<noteq> - 1"
  then have made: "ret ?w1 (clock ?w1) \<noteq> - 1 \<or> ret ?w1 (Suc (clock ?w1)) \<noteq> - 1" by simp
  show "created (activation pid w) =
        [if ret w (Suc (clock w)) \<noteq> - 1 then marker_primary pid else marker_fallback pid]"
    unfolding a start_attach_mechanism_started [OF made]
    using made
    by (simp add: Let_def obs_append obs_marker_events obs_poll_events obs_Cons obs_Nil
        marker_path_def)
  show "kills (activation pid w) =
        [(pid, SIGQUIT, ret w (clock w + (if ret w (Suc (clock w)) \<noteq> - 1 then 3 else 4)))]"
    unfolding a start_attach_mechanism_started [OF made]
    by (simp add: Let_def obs_append obs_marker_events obs_poll_events obs_Cons obs_Nil
        numeral_3_eq_3 numeral_eq_Suc)
qed

lemma start_attach_mechanism_dead_run:
  "fst (start_attach_mechanism 4242 dead_target) = Inr 0"
  "kills (trace (snd (start_attach_mechanism 4242 dead_target))) = [(4242, SIGQUIT, - 1)]"
  "length (polls (trace (snd (start_attach_mechanism 4242 dead_target)))) = 10"
proof -
  let ?w = dead_target
  have never: "\<not> ready_at ?w t" for t by (simp add: ready_at_def)
  have n: "polls_until ?w c 10 = 10" for c
    using polls_until_last [of 10 ?w c] never by simp
  have made: "ret ?w (clock ?w) \<noteq> - 1 \<or> ret ?w (Suc (clock ?w)) \<noteq> - 1"
    by (simp add: clock_def)
  have alive: "\<not> kill_is_fatal ?w 4242 SIGQUIT"
    by (simp add: kill_is_fatal_def hits_caller_def)
  note run = start_attach_mechanism_started [OF made, of 4242]
  show "fst (start_attach_mechanism 4242 ?w) = Inr 0"
    unfolding run using never alive by (simp add: Let_def)
  show "kills (trace (snd (start_attach_mechanism 4242 ?w))) = [(4242, SIGQUIT, - 1)]"
    unfolding run using alive
    by (simp add: Let_def n [simplified] obs_append obs_marker_events
        obs_poll_events obs_Nil obs_Cons clock_def)
  show "length (polls (trace (snd (start_attach_mechanism 4242 ?w)))) = 10"
    unfolding run using alive
    by (simp add: Let_def n [simplified] obs_append obs_marker_events
        obs_poll_events obs_Nil obs_Cons clock_def)
qed

lemma start_attach_mechanism_own_group_run:
  "start_attach_mechanism 0 own_group =
     (Inl SIGQUIT,
      own_group\<lparr>trace := [Creat ''/proc/0/cwd/.attach_pid0'' 432 (- 1),
        Creat ''/tmp/.attach_pid0'' 432 3, Close 3, Kill 0 SIGQUIT 0, Died SIGQUIT]\<rparr>)"
  by (simp add: start_attach_mechanism_def sys_creat_def sys_close_def sys_kill_def
      kill_is_fatal_def hits_caller_def dec_int_0 clock_def emit_def Let_def)

lemma obs_prelude:
  "printf_args (Stat p r m # activation pid w @ [Socket fd, Connect fd p' r']) = []"
  "received (Stat p r m # activation pid w @ [Socket fd, Connect fd p' r']) = []"
  "stdout_bytes (Stat p r m # activation pid w @ [Socket fd, Connect fd p' r']) = []"
  "sent fd' (Stat p r m # activation pid w @ [Socket fd, Connect fd p' r']) = []"
  "connected (Stat p r m # activation pid w @ [Socket fd, Connect fd p' r']) =
     (if r' = - 1 then [] else [fd])"
  by (simp_all add: obs_Cons obs_Nil obs_append obs_activating [OF activating_activation])

lemma since_session:
  "v = emits P w \<Longrightarrow> since w (emits E (v\<lparr>rx := es, stdio := bs\<rparr>)) = P @ E"
  by (simp add: since_def clock_def emits_def)

lemma main_session_cases:
  assumes "3 \<le> length argv" and "connected (since w (snd (main argv w))) \<noteq> []"
  obtains
    (completed) fd where
      "fst (main argv w) = Inr 0"
      "connected (since w (snd (main argv w))) = [fd]"
      "printf_args (since w (snd (main argv w))) = [''Connected to remove JVM\<newline>'', ''\<newline>'']"
      "received (since w (snd (main argv w))) = rx_data (rx w)"
      "fd \<noteq> 1 \<Longrightarrow> sent fd (since w (snd (main argv w))) =
        [''1'' @ [NUL],
         (if 0 < int (length argv) - 2 then drop 2 argv ! 0 else '''') @ [NUL],
         (if 1 < int (length argv) - 2 then drop 2 argv ! 1 else '''') @ [NUL],
         (if 2 < int (length argv) - 2 then drop 2 argv ! 2 else '''') @ [NUL],
         (if 3 < int (length argv) - 2 then drop 2 argv ! 3 else '''') @ [NUL]]"
      "fd \<noteq> 1 \<Longrightarrow> stdout_bytes (since w (snd (main argv w))) =
        (if stdout_mode w = FullyBuffered
         then rx_data (rx w) @ stdio w @ ''Connected to remove JVM\<newline>'' @ ''\<newline>''
         else stdio w @ ''Connected to remove JVM\<newline>'' @ rx_data (rx w) @ ''\<newline>'')"
  | (killed)
      "fst (main argv w) = Inl SIGPIPE"
      "printf_args (since w (snd (main argv w))) = [''Connected to remove JVM\<newline>''] \<or>
       printf_args (since w (snd (main argv w))) = [''Connected to remove JVM\<newline>'', ''\<newline>'']"
proof -
  note act = obs_activating [OF activating_activation]
  note conn = assms(2)
  from assms(1) show ?thesis
  proof (cases rule: main_cases [where w = w])
    case own_signal
    then show ?thesis using conn by (simp add: obs_Cons obs_Nil obs_append act)
  next
    case (not_started T)
    then show ?thesis using conn obs_relaying(5) [of T]
      by (simp add: obs_Cons obs_Nil obs_append act)
  next
    case (not_connected C T)
    then show ?thesis using conn obs_relaying(5) [of T]
      by (simp add: obs_Cons obs_Nil obs_append act)
  next
    case c: (connected fd r v)
    define P where "P = Stat (channel_path (atoi (argv ! 1))) (ret w (clock w)) (st_mode_at w (clock w))
        # activation (atoi (argv ! 1)) w @ [Socket fd, Connect fd (channel_path (atoi (argv ! 1))) r]"
    have v: "v = emits P w" unfolding P_def by (rule c(3))
    have env: "rx v = rx w" "stdio v = stdio w" "stdout_mode v = stdout_mode w"
      by (simp_all add: v)
    have quiet: "printf_args P = []" "received P = []" "stdout_bytes P = []" "sent fd' P = []" for fd'
      unfolding P_def by (rule obs_prelude)+
    have cP: "connected P = [fd]"
      unfolding P_def using c(2) by (simp add: obs_prelude)
    show ?thesis
    proof (cases rule: session_cases [of fd "int (length argv) - 2" "drop 2 argv" v])
      case s: (completed E es)
      have sn: "since w (snd (main argv w)) = P @ E"
        unfolding c(4) s(1) snd_conv by (rule since_session [OF v])
      have out: "fst (main argv w) = Inr 0" unfolding c(4) s(1) by simp
      show ?thesis
      proof (rule completed [of fd])
        show "fst (main argv w) = Inr 0" by (rule out)
        show "connected (since w (snd (main argv w))) = [fd]"
          unfolding sn using cP obs_relaying(5) [OF s(4)] by (simp add: obs_append)
        show "printf_args (since w (snd (main argv w))) = [''Connected to remove JVM\<newline>'', ''\<newline>'']"
          unfolding sn using quiet(1) s(2) by (simp add: obs_append)
        show "received (since w (snd (main argv w))) = rx_data (rx w)"
          unfolding sn using quiet(2) s(3) env(1) by (simp add: obs_append)
        show "sent fd (since w (snd (main argv w))) =
          [''1'' @ [NUL],
           (if 0 < int (length argv) - 2 then drop 2 argv ! 0 else '''') @ [NUL],
           (if 1 < int (length argv) - 2 then drop 2 argv ! 1 else '''') @ [NUL],
           (if 2 < int (length argv) - 2 then drop 2 argv ! 2 else '''') @ [NUL],
           (if 3 < int (length argv) - 2 then drop 2 argv ! 3 else '''') @ [NUL]]" if "fd \<noteq> 1"
          unfolding sn obs_append quiet(4) s(5) [OF that] by simp
        show "stdout_bytes (since w (snd (main argv w))) =
          (if stdout_mode w = FullyBuffered
           then rx_data (rx w) @ stdio w @ ''Connected to remove JVM\<newline>'' @ ''\<newline>''
           else stdio w @ ''Connected to remove JVM\<newline>'' @ rx_data (rx w) @ ''\<newline>'')"
          if "fd \<noteq> 1"
          unfolding sn obs_append quiet(3) s(6) [OF that] env by simp
      qed
    next
      case s: (killed E es bs)
      have sn: "since w (snd (main argv w)) = P @ E"
        unfolding c(4) s(1) snd_conv by (rule since_session [OF v])
      have out: "fst (main argv w) = Inl SIGPIPE" unfolding c(4) s(1) by simp
      have "printf_args (since w (snd (main argv w))) = printf_args E"
        unfolding sn using quiet(1) by (simp add: obs_append)
      then show ?thesis using killed [OF out] s(3) by simp
    qed
  qed
qed

section \<open>The Channel Locator\<close>

text \<open>
  Claim C7, as the specification has it: the Channel Locator reports not-ready both when
  the channel path is absent and when the path exists but is of the wrong kind, and its
  result distinguishes these two cases.  The second half fails.  In the world
  \<open>nothing_there\<close> \<^verbatim>\<open>stat\<close> fails (the path is absent); in \<open>regular_file\<close> it succeeds on a
  regular file of mode 0100644.  \<open>check_socket\<close> returns the same value for both.
\<close>

theorem check_socket_distinguishes_counterexample:
  "\<not> fst (check_socket 42 nothing_there)
     \<noteq> fst (check_socket 42 regular_file)"
  by (simp add: check_socket_eq clock_def S_ISSOCK_def S_IFMT_def S_IFSOCK_def)

text \<open>
  Claim C7, amended: the Channel Locator reports not-ready, the value 0, both when
  \<^verbatim>\<open>stat\<close> fails on the channel path (world \<open>w1\<close>) and when it succeeds on something that
  is not a socket (world \<open>w2\<close>); the value is the same in the two cases, so the result
  does not tell them apart.
\<close>

theorem check_socket_not_ready:
  "ret w1 (clock w1) \<noteq> 0 \<Longrightarrow> ret w2 (clock w2) = 0 \<Longrightarrow> \<not> S_ISSOCK (st_mode_at w2 (clock w2)) \<Longrightarrow>
     fst (check_socket pid w1) = 0 \<and> fst (check_socket pid w2) = 0 \<and>
     fst (check_socket pid w1) = fst (check_socket pid w2)"
  by (simp add: check_socket_eq)

theorem check_socket_not_ready_witness:
  "ret nothing_there 0 \<noteq> 0 \<and>
   ret regular_file 0 = 0 \<and>
   \<not> S_ISSOCK (0x81A4 :: mode_t) \<and>
   fst (check_socket 42 nothing_there) = 0 \<and>
   fst (check_socket 42 regular_file) = 0"
  using check_socket_not_ready [of nothing_there regular_file 42]
  by (simp add: clock_def S_ISSOCK_def S_IFMT_def S_IFSOCK_def)

section \<open>The request\<close>

text \<open>
  Claim C4: for every command and every number (at most three) of argument strings after
  it, \<open>write_command\<close> emits the byte \<open>1\<close> and a null byte, then exactly four
  null-terminated fields in the order command, arg1, arg2, arg3, an unsupplied field being
  the empty string, that is a single null byte; each field is a \<^verbatim>\<open>write\<close> of its own.
  When the call returns it has appended five events, and they are these five writes on
  the descriptor.  It returns unless one of the five writes raises a fatal \<^verbatim>\<open>SIGPIPE\<close>;
  in that case the writes made up to that one are the first of the five, in order.
\<close>

theorem write_command_fields:
  "length extra \<le> 3 \<Longrightarrow>
     (let out = write_command fd (int (length (cmd # extra))) (cmd # extra) w;
          request = [''1'' @ [NUL], cmd @ [NUL]]
                      @ map (\<lambda>a. a @ [NUL]) (extra @ replicate (3 - length extra) '''')
      in (fst out = Inr () \<longrightarrow>
            sent fd (since w (snd out)) = request \<and> length (since w (snd out)) = 5) \<and>
         (fst out = Inr ()) = writes_survive w (clock w) 5 \<and>
         sent fd (since w (snd out)) = take (length (sent fd (since w (snd out)))) request)"
proof -
  assume len: "length extra \<le> 3"
  consider "extra = []" | a where "extra = [a]" | a b where "extra = [a, b]"
    | a b c where "extra = [a, b, c]"
    using len by (cases extra rule: list.exhaust; simp; (cases "tl extra"; simp; (cases "tl (tl extra)"; simp)))
  then have req: "[''1'' @ [NUL],
         (if 0 < int (length (cmd # extra)) then (cmd # extra) ! 0 else '''') @ [NUL],
         (if 1 < int (length (cmd # extra)) then (cmd # extra) ! 1 else '''') @ [NUL],
         (if 2 < int (length (cmd # extra)) then (cmd # extra) ! 2 else '''') @ [NUL],
         (if 3 < int (length (cmd # extra)) then (cmd # extra) ! 3 else '''') @ [NUL]] =
       [''1'' @ [NUL], cmd @ [NUL]] @ map (\<lambda>a. a @ [NUL]) (extra @ replicate (3 - length extra) '''')"
    by cases (simp_all add: eval_nat_numeral)
  define R where "R = [''1'' @ [NUL], cmd @ [NUL]]
      @ map (\<lambda>a. a @ [NUL]) (extra @ replicate (3 - length extra) '''')"
  define E where "E = write_events fd w (clock w) R"
  have out: "write_command fd (int (length (cmd # extra))) (cmd # extra) w =
      (if writes_survive w (clock w) 5 then Inr () else Inl SIGPIPE, emits E w)"
    unfolding write_command_eq req E_def R_def ..
  have five: "length R = 5" using len by (simp add: R_def)
  have full: "sent fd E = R \<and> length E = 5" if "writes_survive w (clock w) 5"
    using write_events_survive [of w "clock w" R fd] that unfolding five E_def by simp
  have pre: "sent fd E = take (length (sent fd E)) R"
    unfolding E_def by (rule write_events_prefix)
  have "(fst (write_command fd (int (length (cmd # extra))) (cmd # extra) w) = Inr () \<longrightarrow>
          sent fd (since w (snd (write_command fd (int (length (cmd # extra))) (cmd # extra) w))) = R \<and>
          length (since w (snd (write_command fd (int (length (cmd # extra))) (cmd # extra) w))) = 5) \<and>
        (fst (write_command fd (int (length (cmd # extra))) (cmd # extra) w) = Inr ())
          = writes_survive w (clock w) 5 \<and>
        sent fd (since w (snd (write_command fd (int (length (cmd # extra))) (cmd # extra) w))) =
          take (length (sent fd (since w (snd (write_command fd (int (length (cmd # extra))) (cmd # extra) w))))) R"
  proof (intro conjI impI)
    assume "fst (write_command fd (int (length (cmd # extra))) (cmd # extra) w) = Inr ()"
    then have "writes_survive w (clock w) 5" unfolding out by (simp split: if_splits)
    from full [OF this]
    show "sent fd (since w (snd (write_command fd (int (length (cmd # extra))) (cmd # extra) w))) = R"
      and "length (since w (snd (write_command fd (int (length (cmd # extra))) (cmd # extra) w))) = 5"
      unfolding out by simp_all
  next
    show "(fst (write_command fd (int (length (cmd # extra))) (cmd # extra) w) = Inr ())
          = writes_survive w (clock w) 5"
      unfolding out by simp
  next
    show "sent fd (since w (snd (write_command fd (int (length (cmd # extra))) (cmd # extra) w))) =
          take (length (sent fd (since w (snd (write_command fd (int (length (cmd # extra))) (cmd # extra) w))))) R"
      unfolding out snd_conv since_emits by (rule pre)
  qed
  then show ?thesis unfolding Let_def R_def .
qed

theorem write_command_fields_witness:
  "length [''-all''] \<le> 3 \<and>
   fst (write_command 3 2 [''dumpheap'', ''-all''] at_start) = Inr () \<and>
   sent 3 (since at_start (snd (write_command 3 2 [''dumpheap'', ''-all''] at_start))) =
     [''1'' @ [NUL], ''dumpheap'' @ [NUL], ''-all'' @ [NUL], [NUL], [NUL]]"
proof -
  have ok: "fst (write_command 3 2 [''dumpheap'', ''-all''] at_start) = Inr ()"
    by (simp add: write_command_eq pipe_kills_def eval_nat_numeral)
  show ?thesis
    using write_command_fields [of "[''-all'']" 3 "''dumpheap''" at_start] ok
    by (simp add: Let_def eval_nat_numeral)
qed

section \<open>The wait loop\<close>

text \<open>
  Claim C5: the wait loop sleeps one second before every poll of the Channel Locator,
  polls at most 10 times, and stops at the first poll that finds the channel ready: if
  readiness first appears at the \<open>n\<close>-th poll (the \<open>k\<close>-th poll is the call at step
  \<open>clock w + 2 * k - 1\<close>), the loop returns 1 after exactly \<open>n\<close> rounds; if none of the 10
  polls finds the channel, it returns 0 after exactly 10 rounds.
\<close>

theorem attach_poll_budget:
  "(1 \<le> n \<and> n \<le> 10 \<and> (\<forall>k. 1 \<le> k \<and> k < n \<longrightarrow> \<not> ready_at w (clock w + 2 * k - 1))
      \<and> ready_at w (clock w + 2 * n - 1)
    \<longrightarrow> fst (attach_poll pid 0 w) = 1
        \<and> since w (snd (attach_poll pid 0 w)) = poll_events pid w (clock w) n
        \<and> length (polls (since w (snd (attach_poll pid 0 w)))) = n)
   \<and> ((\<forall>k. 1 \<le> k \<and> k \<le> 10 \<longrightarrow> \<not> ready_at w (clock w + 2 * k - 1))
    \<longrightarrow> fst (attach_poll pid 0 w) = 0
        \<and> since w (snd (attach_poll pid 0 w)) = poll_events pid w (clock w) 10
        \<and> length (polls (since w (snd (attach_poll pid 0 w)))) = 10)
   \<and> length (polls (since w (snd (attach_poll pid 0 w)))) \<le> 10"
proof (intro conjI impI)
  assume a: "1 \<le> n \<and> n \<le> 10 \<and> (\<forall>k. 1 \<le> k \<and> k < n \<longrightarrow> \<not> ready_at w (clock w + 2 * k - 1))
      \<and> ready_at w (clock w + 2 * n - 1)"
  then obtain m where n: "n = Suc m" by (cases n) auto
  have before: "\<forall>k<m. \<not> ready_at w (clock w + 2 * k + 1)"
  proof (intro allI impI)
    fix k assume "k < m"
    then have "1 \<le> Suc k \<and> Suc k < n" using n by simp
    with a have "\<not> ready_at w (clock w + 2 * Suc k - 1)" by blast
    then show "\<not> ready_at w (clock w + 2 * k + 1)" by simp
  qed
  have hit: "ready_at w (clock w + 2 * m + 1)" using a n by simp
  have eq: "attach_poll pid 0 w = (1, emits (poll_events pid w (clock w) n) w)"
    using attach_poll_found [OF before hit, of 0 pid] a n by simp
  show "fst (attach_poll pid 0 w) = 1" by (simp add: eq)
  show "since w (snd (attach_poll pid 0 w)) = poll_events pid w (clock w) n" by (simp add: eq)
  show "length (polls (since w (snd (attach_poll pid 0 w)))) = n" by (simp add: eq)
next
  assume a: "\<forall>k. 1 \<le> k \<and> k \<le> 10 \<longrightarrow> \<not> ready_at w (clock w + 2 * k - 1)"
  have never: "\<forall>k<10. \<not> ready_at w (clock w + 2 * k + 1)"
  proof (intro allI impI)
    fix k :: nat assume "k < 10"
    then have "1 \<le> Suc k \<and> Suc k \<le> 10" by simp
    with a have "\<not> ready_at w (clock w + 2 * Suc k - 1)" by blast
    then show "\<not> ready_at w (clock w + 2 * k + 1)" by simp
  qed
  have eq: "attach_poll pid 0 w = (0, emits (poll_events pid w (clock w) 10) w)"
    using attach_poll_timeout [OF never, of 0 pid] by simp
  show "fst (attach_poll pid 0 w) = 0" by (simp add: eq)
  show "since w (snd (attach_poll pid 0 w)) = poll_events pid w (clock w) 10" by (simp add: eq)
  show "length (polls (since w (snd (attach_poll pid 0 w)))) = 10" by (simp add: eq)
next
  show "length (polls (since w (snd (attach_poll pid 0 w)))) \<le> 10"
    by (rule attach_poll_shape [of pid w]) simp
qed

theorem attach_poll_budget_witness:
  "\<not> ready_at ready_at_third_poll 1 \<and> \<not> ready_at ready_at_third_poll 3 \<and>
   ready_at ready_at_third_poll 5 \<and>
   fst (attach_poll 7 0 ready_at_third_poll) = 1 \<and>
   length (polls (since ready_at_third_poll (snd (attach_poll 7 0 ready_at_third_poll))))
     = 3 \<and>
   fst (attach_poll 7 0 nothing_there) = 0 \<and>
   length (polls (since nothing_there (snd (attach_poll 7 0 nothing_there)))) = 10"
proof -
  let ?w = ready_at_third_poll
  let ?v = nothing_there
  have hit: "ready_at ?w 5"
    by (simp add: ready_at_def S_ISSOCK_def S_IFMT_def S_IFSOCK_def)
  have before: "\<forall>k. 1 \<le> k \<and> k < 3 \<longrightarrow> \<not> ready_at ?w (clock ?w + 2 * k - 1)"
    by (auto simp add: ready_at_def clock_def)
  have never: "\<forall>k. 1 \<le> k \<and> k \<le> 10 \<longrightarrow> \<not> ready_at ?v (clock ?v + 2 * k - 1)"
    by (simp add: ready_at_def)
  have miss: "\<not> ready_at ?w 1" "\<not> ready_at ?w 3"
    by (simp_all add: ready_at_def)
  show ?thesis
    using attach_poll_budget [of 3 ?w 7] attach_poll_budget [of 3 ?v 7] hit before never miss
    by (simp add: clock_def)
qed

section \<open>The activation marker\<close>

text \<open>
  Claim C6, as the specification has it: whenever the Activator creates the activation
  marker, the marker is removed exactly once before the Activator returns, so that no
  marker is leaked on any exit path after creation.  It fails for an identifier that
  addresses jattach itself, such as 0, which the program accepts (any target argument
  without a digit parses to 0).  In the world \<open>own_group\<close> the marker for identifier 0 is
  created at the fallback location, \<^verbatim>\<open>kill(0, SIGQUIT)\<close> signals the process group of
  jattach, and the signal terminates jattach inside that call: \<^verbatim>\<open>unlink\<close> is never
  called and the marker is left behind.
\<close>

theorem marker_leak_counterexample:
  "created (trace (snd (start_attach_mechanism 0 own_group)))
     = [''/tmp/.attach_pid0''] \<and>
   kills (trace (snd (start_attach_mechanism 0 own_group)))
     = [(0, SIGQUIT, 0)] \<and>
   unlinked (trace (snd (start_attach_mechanism 0 own_group)))
     = [] \<and>
   fst (start_attach_mechanism 0 own_group) = Inl SIGQUIT"
  unfolding start_attach_mechanism_own_group_run by (simp add: obs_Cons obs_Nil)

text \<open>
  Claim C6, amended: whenever the Activator creates the activation marker, at the primary
  location (\<^verbatim>\<open>creat\<close> at step \<open>clock w\<close> succeeds) or at the fallback (the second \<^verbatim>\<open>creat\<close>,
  at the next step, succeeds), and the signal it sends does not terminate jattach itself
  (the identifier addresses neither jattach nor its process group, or \<^verbatim>\<open>SIGQUIT\<close> is
  ignored), exactly one marker is created, \<^verbatim>\<open>unlink\<close> is called exactly once, on the path
  of that marker, and this is the last call before the Activator returns, whether it
  returns 1 (the channel appeared) or 0 (the wait ran out).  The value \<^verbatim>\<open>unlink\<close> returns
  is dropped: the marker is removed when that call succeeds.
\<close>

theorem marker_unlinked_once:
  "ret w (clock w) \<noteq> - 1 \<or> ret w (Suc (clock w)) \<noteq> - 1 \<Longrightarrow> \<not> kill_is_fatal w pid SIGQUIT \<Longrightarrow>
     created (since w (snd (start_attach_mechanism pid w))) = [marker_path pid w] \<and>
     map fst (unlinked (since w (snd (start_attach_mechanism pid w)))) = [marker_path pid w] \<and>
     last (since w (snd (start_attach_mechanism pid w))) =
       Unlink (marker_path pid w)
         (ret w (clock w + length (since w (snd (start_attach_mechanism pid w))) - 1)) \<and>
     (fst (start_attach_mechanism pid w) = Inr 0 \<or> fst (start_attach_mechanism pid w) = Inr 1)"
  by (auto simp add: start_attach_mechanism_started Let_def obs_append obs_marker_events
      obs_poll_events obs_Nil obs_Cons add.assoc)

theorem marker_unlinked_once_witness:
  "ret fallback_marker 1 \<noteq> - 1 \<and>
   \<not> kill_is_fatal fallback_marker 77 SIGQUIT \<and>
   created (since fallback_marker (snd (start_attach_mechanism 77 fallback_marker)))
     = [''/tmp/.attach_pid77''] \<and>
   map fst (unlinked (since fallback_marker (snd (start_attach_mechanism 77 fallback_marker))))
     = [''/tmp/.attach_pid77'']"
  using marker_unlinked_once [of fallback_marker 77]
  by (simp add: clock_def marker_path_def dec_int_def dec_nat.simps digit_char_def
      kill_is_fatal_def hits_caller_def)

section \<open>Delivery of the activation signal\<close>

text \<open>
  Claim C2, as the specification has it: when delivery of the activation signal fails,
  the Activator treats the attempt as failed and makes no polling attempt, and a delivery
  failure can be told from a delivery that the target ignores.  It fails: in the world
  \<open>dead_target\<close> the marker is created, \<^verbatim>\<open>kill\<close> returns -1 and the channel never appears;
  the Activator still polls ten times.
\<close>

theorem delivery_failure_counterexample:
  "kills (trace (snd (start_attach_mechanism 4242 dead_target)))
     = [(4242, SIGQUIT, - 1)] \<and>
   length (polls (trace (snd (start_attach_mechanism 4242 dead_target))))
     = 10"
  using start_attach_mechanism_dead_run(2,3) by simp

text \<open>
  Claim C2, amended: the Activator drops the value \<^verbatim>\<open>kill\<close> returns.  Once the marker is
  created it sends the signal once; when \<^verbatim>\<open>kill\<close> returns, that is when the signal does
  not terminate jattach itself, and in particular whenever delivery fails, it then
  polls, between 1 and 10 times, whether or not delivery failed; it reports failure only
  after 10 polls that did not find the channel.
  Replacing the value that \<^verbatim>\<open>kill\<close> returns (at step \<open>kill_step w\<close>) by any other value \<open>r\<close>
  changes neither the result nor any call made; only the value recorded with the
  \<^verbatim>\<open>kill\<close> differs.  So a delivery failure is not told from a delivery the target ignores.
\<close>

theorem delivery_result_ignored:
  "ret w (clock w) \<noteq> - 1 \<or> ret w (Suc (clock w)) \<noteq> - 1 \<Longrightarrow> \<not> kill_is_fatal w pid SIGQUIT \<Longrightarrow>
     kills (since w (snd (start_attach_mechanism pid w))) = [(pid, SIGQUIT, ret w (kill_step w))] \<and>
     fst (start_attach_mechanism pid (w\<lparr>ret := (ret w)(kill_step w := r)\<rparr>))
       = fst (start_attach_mechanism pid w) \<and>
     since (w\<lparr>ret := (ret w)(kill_step w := r)\<rparr>)
         (snd (start_attach_mechanism pid (w\<lparr>ret := (ret w)(kill_step w := r)\<rparr>)))
       = (since w (snd (start_attach_mechanism pid w)))[kill_step w - clock w := Kill pid SIGQUIT r] \<and>
     1 \<le> length (polls (since w (snd (start_attach_mechanism pid w)))) \<and>
     length (polls (since w (snd (start_attach_mechanism pid w)))) \<le> 10 \<and>
     (fst (start_attach_mechanism pid w) = Inr 0
        \<longrightarrow> length (polls (since w (snd (start_attach_mechanism pid w)))) = 10) \<and>
     (fst (start_attach_mechanism pid w) = Inr 0 \<or> fst (start_attach_mechanism pid w) = Inr 1)"
proof -
  assume made: "ret w (clock w) \<noteq> - 1 \<or> ret w (Suc (clock w)) \<noteq> - 1"
    and alive: "\<not> kill_is_fatal w pid SIGQUIT"
  let ?c = "clock w + length (marker_events pid w)"
  let ?n = "polls_until w ?c 10"
  have bounds: "1 \<le> ?n \<and> ?n \<le> 10" using polls_until_bounds [of 10 w ?c] by simp
  have last: "\<not> ready_at w (?c + 2 * ?n - 1) \<Longrightarrow> ?n = 10"
    using polls_until_last [of 10 w ?c] by simp
  have "kills (since w (snd (start_attach_mechanism pid w))) = [(pid, SIGQUIT, ret w (kill_step w))]"
    using alive
    by (simp add: start_attach_mechanism_started [OF made] Let_def obs_append obs_marker_events
        obs_poll_events obs_Nil obs_Cons kill_step_def)
  moreover have "length (polls (since w (snd (start_attach_mechanism pid w)))) = ?n"
    using alive
    by (simp add: start_attach_mechanism_started [OF made] Let_def obs_append obs_marker_events
        obs_Nil obs_Cons)
  moreover have "fst (start_attach_mechanism pid w) = Inr 0 \<longrightarrow> ?n = 10"
    using last alive by (simp add: start_attach_mechanism_started [OF made] Let_def)
  moreover have "fst (start_attach_mechanism pid w) = Inr 0 \<or> fst (start_attach_mechanism pid w) = Inr 1"
    using alive by (simp add: start_attach_mechanism_started [OF made] Let_def)
  ultimately show ?thesis
    using bounds start_attach_mechanism_kill_result [OF made alive, where r = r] by simp
qed

theorem delivery_result_ignored_witness:
  "ret dead_target 0 \<noteq> - 1 \<and>
   \<not> kill_is_fatal dead_target 4242 SIGQUIT \<and>
   fst (start_attach_mechanism 4242 dead_target) = Inr 0 \<and>
   kills (since dead_target (snd (start_attach_mechanism 4242 dead_target)))
     = [(4242, SIGQUIT, - 1)] \<and>
   length (polls (since dead_target (snd (start_attach_mechanism 4242 dead_target))))
     = 10 \<and>
   fst (start_attach_mechanism 4242
      (dead_target\<lparr>ret := (\<lambda>t. if t = 0 then 3 else - 1)(Suc (Suc 0) := 0)\<rparr>)) = Inr 0"
  using delivery_result_ignored [of dead_target 4242 0] start_attach_mechanism_dead_run(1)
  by (simp add: clock_def kill_step_def kill_is_fatal_def hits_caller_def)

section \<open>The Response Relay\<close>



section \<open>I/O failures after the connection is established\<close>




section \<open>The request of a thread dump\<close>

text \<open>
  Claim C3, as the specification has it: for the command \<open>threaddump\<close> with no further
  argument, against a target with a live channel, the bytes written to the connection
  are \<open>1\<close>, a null byte, \<open>threaddump\<close> and three null bytes.  It fails, for instance in
  the world \<open>live_channel\<close>: there are four fields after the version, so four null bytes
  follow \<open>threaddump\<close>.
\<close>

theorem threaddump_request_counterexample:
  "concat (sent 3 (trace (snd (main [''jattach'', ''42'', ''threaddump''] live_channel))))
   \<noteq> ''1'' @ [NUL] @ ''threaddump'' @ [NUL, NUL, NUL]"
  unfolding main_live_run by (simp add: obs_Cons obs_Nil)

text \<open>
  Claim C3, amended: for the command \<open>threaddump\<close> with no further argument, when the
  first check finds the channel, the connection is made on descriptor \<open>fd\<close> (which is
  not standard output) and the program runs to its exit with status 0, as the scenario
  has it (no \<^verbatim>\<open>write\<close> raises a fatal \<^verbatim>\<open>SIGPIPE\<close>: the target keeps the connection open
  while the request is written), the bytes written to the connection are exactly \<open>1\<close>, a
  null byte, \<open>threaddump\<close> and four null bytes: the terminator of the command and three
  empty fields.
\<close>

theorem threaddump_request_bytes:
  "ready_at w (clock w) \<Longrightarrow>
   connected (since w (snd (main [prog, target, ''threaddump''] w))) = [fd] \<Longrightarrow> fd \<noteq> 1 \<Longrightarrow>
   fst (main [prog, target, ''threaddump''] w) = Inr 0 \<Longrightarrow>
     concat (sent fd (since w (snd (main [prog, target, ''threaddump''] w))))
       = ''1'' @ [NUL] @ ''threaddump'' @ [NUL, NUL, NUL, NUL]"
proof -
  assume conn: "connected (since w (snd (main [prog, target, ''threaddump''] w))) = [fd]"
    and fd: "fd \<noteq> 1"
    and ok: "fst (main [prog, target, ''threaddump''] w) = Inr 0"
  have args: "3 \<le> length [prog, target, ''threaddump'']" by simp
  have conn': "connected (since w (snd (main [prog, target, ''threaddump''] w))) \<noteq> []"
    using conn by simp
  from args conn' show ?thesis
  proof (cases rule: main_session_cases [where w = w and argv = "[prog, target, ''threaddump'']"])
    case (completed fd')
    then have "fd' = fd" using conn by simp
    then show ?thesis using completed(5) fd by simp
  next
    case killed
    then show ?thesis using ok by simp
  qed
qed

theorem threaddump_request_bytes_witness:
  "ready_at live_channel 0 \<and>
   connected (since live_channel (snd (main [''jattach'', ''42'', ''threaddump''] live_channel)))
     = [3] \<and>
   (3 :: int) \<noteq> 1 \<and>
   fst (main [''jattach'', ''42'', ''threaddump''] live_channel) = Inr 0 \<and>
   concat (sent 3 (since live_channel (snd (main [''jattach'', ''42'', ''threaddump''] live_channel))))
     = ''1'' @ [NUL] @ ''threaddump'' @ [NUL, NUL, NUL, NUL]"
  using threaddump_request_bytes [of live_channel "''jattach''" "''42''" 3]
  unfolding main_live_run
  by (simp add: since_def clock_def obs_Cons obs_Nil ready_at_def S_ISSOCK_def S_IFMT_def
      S_IFSOCK_def)

section \<open>Standard output of a session\<close>




section \<open>An identifier that parses to 0\<close>

text \<open>
  Claim C10: when the target argument parses to 0 and the first check finds no channel at
  \<open>/tmp/.java_pid0\<close>, nothing validates the identifier: the very next call creates the
  marker for identifier 0, and whenever the marker is created, at the primary location
  or at the fallback, the signal is sent to identifier 0, exactly once.  Identifier 0
  addresses the process group of jattach itself, so unless \<^verbatim>\<open>SIGQUIT\<close> is ignored the
  signal terminates jattach inside \<^verbatim>\<open>kill\<close> (see \<open>main_no_channel_run\<close>); the statement
  holds of that run too, which ends at the \<^verbatim>\<open>kill\<close>.
\<close>

theorem zero_identifier_is_signalled:
  "3 \<le> length argv \<Longrightarrow> atoi (argv ! 1) = 0 \<Longrightarrow> \<not> ready_at w (clock w) \<Longrightarrow>
     take 2 (since w (snd (main argv w))) =
       [Stat ''/tmp/.java_pid0'' (ret w (clock w)) (st_mode_at w (clock w)),
        Creat ''/proc/0/cwd/.attach_pid0'' 432 (ret w (Suc (clock w)))] \<and>
     (ret w (Suc (clock w)) \<noteq> - 1 \<or> ret w (Suc (Suc (clock w))) \<noteq> - 1 \<longrightarrow>
        created (since w (snd (main argv w))) =
          [if ret w (Suc (clock w)) \<noteq> - 1 then ''/proc/0/cwd/.attach_pid0''
           else ''/tmp/.attach_pid0''] \<and>
        kills (since w (snd (main argv w))) =
          [(0, SIGQUIT, ret w (clock w + (if ret w (Suc (clock w)) \<noteq> - 1 then 3 else 4)))])"
proof -
  assume args: "3 \<le> length argv" and zero: "atoi (argv ! 1) = 0"
    and absent: "\<not> ready_at w (clock w)"
  let ?s = "Stat ''/tmp/.java_pid0'' (ret w (clock w)) (st_mode_at w (clock w))"
  let ?A = "activation 0 w"
  obtain rest where first:
    "?A = Creat ''/proc/0/cwd/.attach_pid0'' 432 (ret w (Suc (clock w))) # rest"
    using activation_not_ready(1) [OF absent, of 0] by (auto simp add: dec_int_0)
  have two: "take 2 (?s # ?A @ evs) =
      [?s, Creat ''/proc/0/cwd/.attach_pid0'' 432 (ret w (Suc (clock w)))]" for evs
    unfolding first by (simp add: numeral_2_eq_2)
  have made: "created ?A = [if ret w (Suc (clock w)) \<noteq> - 1 then ''/proc/0/cwd/.attach_pid0''
           else ''/tmp/.attach_pid0'']"
    "kills ?A = [(0, SIGQUIT, ret w (clock w + (if ret w (Suc (clock w)) \<noteq> - 1 then 3 else 4)))]"
    if "ret w (Suc (clock w)) \<noteq> - 1 \<or> ret w (Suc (Suc (clock w))) \<noteq> - 1"
    using activation_not_ready(2,3) [OF absent that, of 0] by (simp_all add: dec_int_0)
  have "\<exists>evs. since w (snd (main argv w)) = ?s # ?A @ evs \<and> created evs = [] \<and> kills evs = []"
    using args
  proof (cases rule: main_cases [where w = w])
    case own_signal
    show ?thesis
      unfolding own_signal(3) zero by (simp add: dec_int_0 obs_Nil)
  next
    case (not_started T)
    show ?thesis
      unfolding not_started(5) zero
      using obs_relaying [OF not_started(4)] by (simp add: dec_int_0)
  next
    case (not_connected C T)
    show ?thesis
      unfolding not_connected(8) zero
      using not_connected(4,5) obs_relaying [OF not_connected(7)]
      by (simp add: dec_int_0 obs_append)
  next
    case c: (connected fd r v)
    let ?P = "?s # ?A @ [Socket fd, Connect fd ''/tmp/.java_pid0'' r]"
    have v: "v = emits ?P w" unfolding c(3) zero by (simp add: dec_int_0)
    obtain E es bs where run: "snd (session fd (int (length argv) - 2) (drop 2 argv) v) =
        emits E (v\<lparr>rx := es, stdio := bs\<rparr>)" and rel: "list_all relaying E"
    proof (cases rule: session_cases [of fd "int (length argv) - 2" "drop 2 argv" v])
      case (completed E es)
      then show ?thesis using that [where E = E and es = es and bs = "[]"] by simp
    next
      case (killed E es bs)
      then show ?thesis using that [where E = E and es = es and bs = bs] by simp
    qed
    have "since w (snd (main argv w)) = ?P @ E"
      unfolding c(4) run by (rule since_session [OF v])
    then show ?thesis
      using obs_relaying [OF rel] by (simp add: obs_append obs_Cons obs_Nil)
  qed
  then obtain evs where shape: "since w (snd (main argv w)) = ?s # ?A @ evs"
    and quiet: "created evs = []" "kills evs = []" by blast
  have "take 2 (since w (snd (main argv w))) =
       [?s, Creat ''/proc/0/cwd/.attach_pid0'' 432 (ret w (Suc (clock w)))]"
    unfolding shape by (rule two)
  moreover have "created (since w (snd (main argv w))) = created ?A"
    unfolding shape using quiet by (simp add: obs_append obs_Cons)
  moreover have "kills (since w (snd (main argv w))) = kills ?A"
    unfolding shape using quiet by (simp add: obs_append obs_Cons)
  ultimately show ?thesis using made by simp
qed

theorem zero_identifier_is_signalled_witness:
  "3 \<le> length [''jattach'', ''x'', ''threaddump''] \<and>
   atoi ([''jattach'', ''x'', ''threaddump''] ! 1) = 0 \<and>
   \<not> ready_at no_channel 0 \<and> ret no_channel 2 \<noteq> - 1 \<and>
   created (since no_channel (snd (main [''jattach'', ''x'', ''threaddump''] no_channel)))
     = [''/tmp/.attach_pid0''] \<and>
   kills (since no_channel (snd (main [''jattach'', ''x'', ''threaddump''] no_channel)))
     = [(0, SIGQUIT, 0)]"
  using zero_identifier_is_signalled [of "[''jattach'', ''x'', ''threaddump'']" no_channel]
  by (simp add: atoi_x ready_at_def clock_def)

end
